theory Spec2Isabelle
  imports Main "HOL-Library.Word"
begin

section \<open>Data model of xb-builder.c\<close>

type_synonym guint32 = "32 word"
type_synonym guint8 = "8 word"

text \<open>A C string is a list of bytes without the terminating NUL.\<close>

definition NUL :: char where
  "NUL = CHR 0x00"

datatype XbBuilderNodeFlags =
  XB_BUILDER_NODE_FLAG_IGNORE_CDATA
| XB_BUILDER_NODE_FLAG_LITERAL_TEXT

datatype XbBuilderCompileFlags =
  XB_BUILDER_COMPILE_FLAG_LITERAL_TEXT
| XB_BUILDER_COMPILE_FLAG_NATIVE_LANGS
| XB_BUILDER_COMPILE_FLAG_IGNORE_INVALID

text \<open>
  An XbBuilderNode is a reference-counted object.  \<open>bn_obj\<close> is its identity (the
  pointer): \<open>g_object_ref\<close> shares the object, so two tree links holding the same
  \<open>bn_obj\<close> hold the same object.  Element, text, attributes, flags and children are
  carried by value; the slots that the compile passes write through the pointer
  (\<open>element_idx\<close>, \<open>text_idx\<close>, \<open>offset\<close> and the attributes' \<open>name_idx\<close> and
  \<open>value_idx\<close>) live in a store indexed by \<open>bn_obj\<close>, so that a write through one link
  is seen through every other link to the same object.
\<close>

datatype XbBuilderNode = XbBuilderNode
  (bn_obj: nat)
  (bn_element: string)
  (bn_text: "string option")
  (bn_attrs: "(string \<times> string) list")
  (bn_flags: "XbBuilderNodeFlags set")
  (bn_children: "XbBuilderNode list")

record XbBuilderNodeSlots =
  element_idx :: guint32
  text_idx :: guint32
  offset :: guint32
  name_idx :: "nat \<Rightarrow> guint32"
  value_idx :: "nat \<Rightarrow> guint32"

text \<open>A GNode of GLib's n-ary tree; \<open>data = None\<close> is the NULL of the synthetic root.\<close>

datatype GNode = GNode (data: "XbBuilderNode option") (kids: "GNode list")

text \<open>
  A \<open>GNode *\<close> into the tree under \<open>root\<close> is the path of child indices that leads to
  it; the root is the empty path and \<open>None\<close> is the NULL pointer.
\<close>

record XbBuilderCompileHelper =
  root :: GNode
  current :: "nat list option"
  flags :: "XbBuilderCompileFlags set"
  strtab_hash :: "(string \<times> guint32) list"
  strtab :: string
  info :: "XbBuilderNode option"
  locales :: "string list"
  slots :: "nat \<Rightarrow> XbBuilderNodeSlots"
  next_obj :: nat

text \<open>A GError: error domain, code within the domain, message.\<close>

datatype GError = GError (err_domain: string) (err_code: string) (err_message: string)

text \<open>
  What the GMarkup tokenizer tells the parser callbacks: a start tag with its attributes
  in declared order (the NULL-terminated arrays \<open>attr_names\<close> and \<open>attr_values\<close>
  zipped), an end tag, a run of text.
\<close>

datatype GMarkupEvent =
  StartElement string "(string \<times> string) list"
| EndElement string
| Text string

text \<open>
  An import, as far as \<open>xb_builder_compile_import\<close> sees it: its identity, its optional
  info node, and what its input stream and the tokenizer deliver.  Each element of
  \<open>imp_chunks\<close> is one successful \<open>g_input_stream_read\<close>: the events that
  \<open>g_markup_parse_context_parse\<close> raises on that chunk and the error with which it
  fails, if it does.  \<open>imp_eof\<close> is the read that ends the loop: \<open>None\<close> for end of
  stream (\<open>len = 0\<close>), an error for a failed read (\<open>len < 0\<close>).
\<close>

record XbBuilderImport =
  imp_guid :: string
  imp_info :: "XbBuilderNode option"
  imp_chunks :: "(GMarkupEvent list \<times> GError option) list"
  imp_eof :: "GError option"

section \<open>The string interner\<close>

text \<open>
  \<open>strtab_hash\<close> is the GHashTable from string to offset, kept as an association list
  in insertion order; \<open>strtab->len\<close> is a gsize and is narrowed to guint32.
\<close>

definition xb_builder_compile_add_to_strtab ::
  "'a XbBuilderCompileHelper_scheme \<Rightarrow> string \<Rightarrow> guint32 \<times> 'a XbBuilderCompileHelper_scheme" where
  "xb_builder_compile_add_to_strtab helper str =
     (case map_of (strtab_hash helper) str of
        Some val \<Rightarrow> (val, helper)
      | None \<Rightarrow>
          (let idx = (of_nat (length (strtab helper)) :: guint32) in
           (idx, helper\<lparr>strtab := strtab helper @ str @ [NUL],
                         strtab_hash := strtab_hash helper @ [(str, idx)]\<rparr>)))"

text \<open>The NUL-terminated string that starts at a byte offset of the buffer.\<close>

definition string_at :: "string \<Rightarrow> nat \<Rightarrow> string" where
  "string_at buf off = takeWhile (\<lambda>c. c \<noteq> NUL) (drop off buf)"

text \<open>A run of interning calls, in order.\<close>

fun add_all_to_strtab ::
  "'a XbBuilderCompileHelper_scheme \<Rightarrow> string list \<Rightarrow> 'a XbBuilderCompileHelper_scheme" where
  "add_all_to_strtab helper [] = helper"
| "add_all_to_strtab helper (s # ss) =
     add_all_to_strtab (snd (xb_builder_compile_add_to_strtab helper s)) ss"

section \<open>XbBuilderNode accessors\<close>

text \<open>
  Modelled from the spec: \<open>xb-builder-node.c\<close> is not among the sources.  The spec
  lists construct-with-tag, flag test and set, append-attribute (insertion order is
  preserved) and set-text (the chunk is stored verbatim).  A new object has no text, no
  attributes, no flags and no children, and its slots are zero.
\<close>

definition xb_builder_node_new :: "nat \<Rightarrow> string \<Rightarrow> XbBuilderNode" where
  "xb_builder_node_new obj element_name = XbBuilderNode obj element_name None [] {} []"

definition new_slots :: XbBuilderNodeSlots where
  "new_slots = \<lparr>element_idx = 0, text_idx = 0, offset = 0,
                 name_idx = (\<lambda>_. 0), value_idx = (\<lambda>_. 0)\<rparr>"

definition xb_builder_node_has_flag :: "XbBuilderNode \<Rightarrow> XbBuilderNodeFlags \<Rightarrow> bool" where
  "xb_builder_node_has_flag bn flag \<longleftrightarrow> flag \<in> bn_flags bn"

fun xb_builder_node_add_flag :: "XbBuilderNode \<Rightarrow> XbBuilderNodeFlags \<Rightarrow> XbBuilderNode" where
  "xb_builder_node_add_flag (XbBuilderNode obj el txt attrs fl ch) flag =
     XbBuilderNode obj el txt attrs (insert flag fl) ch"

fun xb_builder_node_add_attribute :: "XbBuilderNode \<Rightarrow> string \<Rightarrow> string \<Rightarrow> XbBuilderNode" where
  "xb_builder_node_add_attribute (XbBuilderNode obj el txt attrs fl ch) name val =
     XbBuilderNode obj el txt (attrs @ [(name, val)]) fl ch"

fun xb_builder_node_set_text :: "XbBuilderNode \<Rightarrow> string \<Rightarrow> XbBuilderNode" where
  "xb_builder_node_set_text (XbBuilderNode obj el txt attrs fl ch) t =
     XbBuilderNode obj el (Some t) attrs fl ch"

section \<open>The GNode tree\<close>

fun g_node_get :: "GNode \<Rightarrow> nat list \<Rightarrow> GNode option" where
  "g_node_get n [] = Some n"
| "g_node_get n (i # p) = (if i < length (kids n) then g_node_get (kids n ! i) p else None)"

text \<open>Apply \<open>f\<close> to the node a path leads to; a path that leads nowhere changes nothing.\<close>

fun g_node_modify :: "(GNode \<Rightarrow> GNode) \<Rightarrow> GNode \<Rightarrow> nat list \<Rightarrow> GNode" where
  "g_node_modify f n [] = f n"
| "g_node_modify f n (i # p) =
     (if i < length (kids n)
      then GNode (data n) ((kids n)[i := g_node_modify f (kids n ! i) p])
      else n)"

text \<open>\<open>n->parent\<close>: NULL for the root.\<close>

fun g_node_parent :: "nat list \<Rightarrow> nat list option" where
  "g_node_parent [] = None"
| "g_node_parent p = Some (butlast p)"

text \<open>\<open>g_node_append_data (parent, data)\<close>: a new last child without children.\<close>

definition g_node_append :: "GNode \<Rightarrow> nat list \<Rightarrow> GNode \<Rightarrow> GNode" where
  "g_node_append rt parent new = g_node_modify (\<lambda>n. GNode (data n) (kids n @ [new])) rt parent"

text \<open>
  \<open>xb_builder_compile_node_tree\<close> appends a GNode holding a reference to \<open>bn\<close> and
  recurses into the children of \<open>bn\<close> beneath it: under \<open>parent\<close> it adds the subtree
  \<open>node_tree bn\<close>, whose links hold the objects of \<open>bn\<close> themselves (\<open>g_object_ref\<close>).
\<close>

fun node_tree :: "XbBuilderNode \<Rightarrow> GNode" where
  "node_tree (XbBuilderNode obj el txt attrs fl ch) =
     GNode (Some (XbBuilderNode obj el txt attrs fl ch)) (map node_tree ch)"

definition xb_builder_compile_node_tree :: "GNode \<Rightarrow> nat list \<Rightarrow> XbBuilderNode \<Rightarrow> GNode" where
  "xb_builder_compile_node_tree rt parent bn = g_node_append rt parent (node_tree bn)"

section \<open>Parser callbacks\<close>

text \<open>
  The callbacks return \<open>None\<close> where the C code would dereference NULL: a callback
  entered with \<open>helper->current = NULL\<close>, which happens only after an end tag at the
  root, an event that the tokenizer never raises.
\<close>

definition xb_builder_compile_start_element_cb ::
  "XbBuilderCompileHelper \<Rightarrow> string \<Rightarrow> (string \<times> string) list \<Rightarrow> XbBuilderCompileHelper option" where
  "xb_builder_compile_start_element_cb helper element_name attrs =
     (case current helper of
        None \<Rightarrow> None
      | Some cur \<Rightarrow>
         (case g_node_get (root helper) cur of
            None \<Rightarrow> None
          | Some n \<Rightarrow>
             (let bn = xb_builder_node_new (next_obj helper) element_name;
                  parent = data n;
                  bn = (if (case parent of None \<Rightarrow> False
                             | Some pbn \<Rightarrow> xb_builder_node_has_flag pbn XB_BUILDER_NODE_FLAG_IGNORE_CDATA)
                        then xb_builder_node_add_flag bn XB_BUILDER_NODE_FLAG_IGNORE_CDATA
                        else bn);
                  bn = (if \<not> xb_builder_node_has_flag bn XB_BUILDER_NODE_FLAG_IGNORE_CDATA
                           \<and> XB_BUILDER_COMPILE_FLAG_NATIVE_LANGS \<in> flags helper
                        then foldl (\<lambda>b (name, lang).
                                      if name = ''xml:lang'' \<and> lang \<notin> set (locales helper)
                                      then xb_builder_node_add_flag b XB_BUILDER_NODE_FLAG_IGNORE_CDATA
                                      else b) bn attrs
                        else bn);
                  bn = (if \<not> xb_builder_node_has_flag bn XB_BUILDER_NODE_FLAG_IGNORE_CDATA
                        then foldl (\<lambda>b (name, val). xb_builder_node_add_attribute b name val) bn attrs
                        else bn)
              in Some (helper\<lparr>root := g_node_append (root helper) cur (GNode (Some bn) []),
                                current := Some (cur @ [length (kids n)]),
                                slots := (slots helper)(next_obj helper := new_slots),
                                next_obj := Suc (next_obj helper)\<rparr>))))"

definition xb_builder_compile_end_element_cb ::
  "XbBuilderCompileHelper \<Rightarrow> string \<Rightarrow> XbBuilderCompileHelper option" where
  "xb_builder_compile_end_element_cb helper element_name =
     (case current helper of
        None \<Rightarrow> None
      | Some cur \<Rightarrow>
         (let helper =
                (case info helper of
                   Some bn \<Rightarrow>
                     if g_node_parent cur = Some []
                     then helper\<lparr>root := xb_builder_compile_node_tree (root helper) cur bn\<rparr>
                     else helper
                 | None \<Rightarrow> helper)
          in Some (helper\<lparr>current := g_node_parent cur\<rparr>)))"

text \<open>GLib's \<open>g_ascii_isspace\<close>: space, tab, line feed, form feed, carriage return.\<close>

definition g_ascii_isspace :: "char \<Rightarrow> bool" where
  "g_ascii_isspace c \<longleftrightarrow> c \<in> {CHR '' '', CHR 0x09, CHR 0x0A, CHR 0x0C, CHR 0x0D}"

text \<open>
  At the root \<open>bn\<close> is NULL; a text event there with \<open>text_len > 0\<close> passes NULL to the
  node accessors, which the tokenizer never causes: \<open>None\<close>.
\<close>

definition xb_builder_compile_text_cb ::
  "XbBuilderCompileHelper \<Rightarrow> string \<Rightarrow> XbBuilderCompileHelper option" where
  "xb_builder_compile_text_cb helper txt =
     (case current helper of
        None \<Rightarrow> None
      | Some cur \<Rightarrow>
         (case g_node_get (root helper) cur of
            None \<Rightarrow> None
          | Some n \<Rightarrow>
             if length txt = 0 then Some helper
             else (case data n of
                     None \<Rightarrow> None
                   | Some bn \<Rightarrow>
                       if xb_builder_node_has_flag bn XB_BUILDER_NODE_FLAG_IGNORE_CDATA then Some helper
                       else if list_all g_ascii_isspace txt then Some helper
                       else
                         (let bn = (if XB_BUILDER_COMPILE_FLAG_LITERAL_TEXT \<in> flags helper
                                    then xb_builder_node_add_flag bn XB_BUILDER_NODE_FLAG_LITERAL_TEXT
                                    else bn);
                              bn = xb_builder_node_set_text bn txt
                          in Some (helper\<lparr>root :=
                                g_node_modify (\<lambda>m. GNode (Some bn) (kids m)) (root helper) cur\<rparr>)))))"

fun parser_callback :: "XbBuilderCompileHelper \<Rightarrow> GMarkupEvent \<Rightarrow> XbBuilderCompileHelper option" where
  "parser_callback helper (StartElement name attrs) = xb_builder_compile_start_element_cb helper name attrs"
| "parser_callback helper (EndElement name) = xb_builder_compile_end_element_cb helper name"
| "parser_callback helper (Text txt) = xb_builder_compile_text_cb helper txt"

fun parser_callbacks :: "XbBuilderCompileHelper \<Rightarrow> GMarkupEvent list \<Rightarrow> XbBuilderCompileHelper option" where
  "parser_callbacks helper [] = Some helper"
| "parser_callbacks helper (ev # evs) =
     (case parser_callback helper ev of
        None \<Rightarrow> None
      | Some helper' \<Rightarrow> parser_callbacks helper' evs)"

section \<open>Compiling the imports\<close>

definition mismatched_xml :: GError where
  "mismatched_xml = GError ''G_IO_ERROR'' ''G_IO_ERROR_INVALID_DATA'' ''Mismatched XML''"

text \<open>The read loop of \<open>xb_builder_compile_import\<close> and the check that follows it.\<close>

fun compile_import_loop ::
  "XbBuilderCompileHelper \<Rightarrow> (GMarkupEvent list \<times> GError option) list \<Rightarrow> GError option
     \<Rightarrow> ((GError + unit) \<times> XbBuilderCompileHelper) option" where
  "compile_import_loop helper [] eof =
     (case eof of
        Some e \<Rightarrow> Some (Inl e, helper)
      | None \<Rightarrow>
          if Some [] \<noteq> current helper then Some (Inl mismatched_xml, helper)
          else Some (Inr (), helper))"
| "compile_import_loop helper ((evs, perr) # chunks) eof =
     (case parser_callbacks helper evs of
        None \<Rightarrow> None
      | Some helper' \<Rightarrow>
         (case perr of
            Some e \<Rightarrow> Some (Inl e, helper')
          | None \<Rightarrow> compile_import_loop helper' chunks eof))"

definition xb_builder_compile_import ::
  "XbBuilderCompileHelper \<Rightarrow> XbBuilderImport \<Rightarrow> ((GError + unit) \<times> XbBuilderCompileHelper) option" where
  "xb_builder_compile_import helper import =
     compile_import_loop (helper\<lparr>info := imp_info import\<rparr>) (imp_chunks import) (imp_eof import)"

text \<open>\<open>g_propagate_prefixed_error\<close> with the format \<open>"failed to compile %s: "\<close>.\<close>

definition prefixed_error :: "GError \<Rightarrow> string \<Rightarrow> GError" where
  "prefixed_error e guid =
     GError (err_domain e) (err_code e) (''failed to compile '' @ guid @ '': '' @ err_message e)"

text \<open>The loop over \<open>self->imports\<close> in \<open>xb_builder_compile\<close>.\<close>

fun compile_imports ::
  "XbBuilderCompileHelper \<Rightarrow> XbBuilderImport list \<Rightarrow> (GError + XbBuilderCompileHelper) option" where
  "compile_imports helper [] = Some (Inr helper)"
| "compile_imports helper (import # imports) =
     (case xb_builder_compile_import (helper\<lparr>current := Some []\<rparr>) import of
        None \<Rightarrow> None
      | Some (Inl error_local, helper') \<Rightarrow>
          if XB_BUILDER_COMPILE_FLAG_IGNORE_INVALID \<in> flags helper'
          then compile_imports helper' imports
          else Some (Inl (prefixed_error error_local (imp_guid import)))
      | Some (Inr u, helper') \<Rightarrow> compile_imports helper' imports)"

section \<open>The silo image\<close>

text \<open>
  The records of \<open>xb-silo-private.h\<close>.  Modelled from the spec: the header is not among
  the sources; the spec gives the fields of the header (the reserved padding is left
  out), of the node record (\<open>nr_attrs\<close> is a u8) and of the attribute record.
\<close>

record XbSiloHeader =
  hdr_magic :: guint32
  hdr_version :: guint32
  hdr_strtab :: guint32
  hdr_strtab_ntags :: guint32
  hdr_guid :: "guint8 list"

record XbSiloNode =
  is_node :: bool
  has_text :: bool
  nr_attrs :: guint8
  sn_element_name :: guint32
  sn_next :: guint32
  sn_parent :: guint32
  sn_text :: guint32

record XbSiloAttr =
  attr_name :: guint32
  attr_value :: guint32

text \<open>
  The output buffer is the sequence of the records appended to it; the bytes of a
  record are not modelled, its length is.  The string table is appended in one piece.
\<close>

datatype BufItem =
  HeaderItem XbSiloHeader
| NodeItem XbSiloNode
| AttrItem XbSiloAttr
| StrtabItem string

text \<open>An XbSilo object, as far as the builder looks at it: its GUID and its bytes.\<close>

record XbSilo =
  silo_guid :: "string option"
  silo_bytes :: "BufItem list option"

text \<open>
  What the builder takes from outside this file: the sizes and constants of
  \<open>xb-silo-private.h\<close>, the size \<open>xb_silo_node_get_size\<close> gives a sentinel, the host's
  locale list, the name-based UUID of a string in the zero namespace with its text form,
  and the silo loader, which returns the silo object as it leaves it and its error.
\<close>

record Platform =
  sizeof_XbSiloHeader :: nat
  sizeof_XbSiloNode :: nat
  sizeof_XbSiloAttr :: nat
  sizeof_sentinel :: nat
  XB_SILO_MAGIC_BYTES :: guint32
  XB_SILO_VERSION :: guint32
  g_get_language_names :: "string list"
  uuid_generate_sha1 :: "string \<Rightarrow> guint8 list"
  uuid_unparse :: "guint8 list \<Rightarrow> string"
  xb_silo_load_from_bytes :: "XbSilo \<Rightarrow> BufItem list \<Rightarrow> GError option \<times> XbSilo"

fun item_size :: "Platform \<Rightarrow> BufItem \<Rightarrow> nat" where
  "item_size P (HeaderItem h) = sizeof_XbSiloHeader P"
| "item_size P (NodeItem sn) =
     (if is_node sn
      then (if has_text sn then sizeof_XbSiloNode P else sizeof_XbSiloNode P - 4)
      else sizeof_sentinel P)"
| "item_size P (AttrItem a) = sizeof_XbSiloAttr P"
| "item_size P (StrtabItem s) = length s"

definition buf_len :: "Platform \<Rightarrow> BufItem list \<Rightarrow> nat" where
  "buf_len P b = sum_list (map (item_size P) b)"

section \<open>Tree traversal\<close>

text \<open>
  What a traversal callback reads of the node \<open>n\<close> it is called on: \<open>n->data\<close>,
  \<open>g_node_depth (n)\<close> (1 for the root), the data of \<open>n->parent\<close> and the data of
  \<open>g_node_next_sibling (n)\<close>, each \<open>None\<close> when the pointer is NULL.
\<close>

record GNodeVisit =
  v_data :: "XbBuilderNode option"
  v_depth :: nat
  v_parent :: "XbBuilderNode option option"
  v_next :: "XbBuilderNode option option"

fun pre_order :: "nat \<Rightarrow> XbBuilderNode option option \<Rightarrow> GNode \<Rightarrow> GNode list \<Rightarrow> GNodeVisit list"
  and pre_order_kids :: "nat \<Rightarrow> XbBuilderNode option option \<Rightarrow> GNode list \<Rightarrow> GNodeVisit list" where
  "pre_order d par (GNode x ks) sibs =
     \<lparr>v_data = x, v_depth = d, v_parent = par,
      v_next = (case sibs of [] \<Rightarrow> None | s # _ \<Rightarrow> Some (data s))\<rparr>
     # pre_order_kids (Suc d) (Some x) ks"
| "pre_order_kids d par [] = []"
| "pre_order_kids d par (k # ks) = pre_order d par k ks @ pre_order_kids d par ks"

text \<open>\<open>g_node_traverse (root, G_PRE_ORDER, G_TRAVERSE_ALL, -1, ...)\<close>\<close>

definition g_node_traverse_pre_order :: "GNode \<Rightarrow> GNodeVisit list" where
  "g_node_traverse_pre_order rt = pre_order 1 None rt []"

fun g_node_max_height :: "GNode \<Rightarrow> nat" where
  "g_node_max_height (GNode x ks) = Suc (foldr max (map g_node_max_height ks) 0)"

text \<open>
  \<open>g_node_traverse (root, G_LEVEL_ORDER, G_TRAVERSE_ALL, -1, ...)\<close>: level after level,
  each level from left to right.
\<close>

definition g_node_traverse_level_order :: "GNode \<Rightarrow> GNodeVisit list" where
  "g_node_traverse_level_order rt =
     concat (map (\<lambda>l. filter (\<lambda>v. v_depth v = l) (g_node_traverse_pre_order rt))
                 [1 ..< Suc (g_node_max_height rt)])"

section \<open>String-table passes\<close>

definition xb_builder_strtab_element_names_cb ::
  "XbBuilderCompileHelper \<Rightarrow> GNodeVisit \<Rightarrow> XbBuilderCompileHelper" where
  "xb_builder_strtab_element_names_cb helper n =
     (case v_data n of
        None \<Rightarrow> helper
      | Some bn \<Rightarrow>
          if xb_builder_node_has_flag bn XB_BUILDER_NODE_FLAG_IGNORE_CDATA then helper
          else (let (idx, helper) = xb_builder_compile_add_to_strtab helper (bn_element bn)
                in helper\<lparr>slots := (slots helper)
                     (bn_obj bn := (slots helper (bn_obj bn))\<lparr>element_idx := idx\<rparr>)\<rparr>))"

definition xb_builder_strtab_attr_name_cb ::
  "XbBuilderCompileHelper \<Rightarrow> GNodeVisit \<Rightarrow> XbBuilderCompileHelper" where
  "xb_builder_strtab_attr_name_cb helper n =
     (case v_data n of
        None \<Rightarrow> helper
      | Some bn \<Rightarrow>
          if xb_builder_node_has_flag bn XB_BUILDER_NODE_FLAG_IGNORE_CDATA then helper
          else foldl (\<lambda>helper i.
                  let (idx, helper) = xb_builder_compile_add_to_strtab helper (fst (bn_attrs bn ! i));
                      s = slots helper (bn_obj bn)
                  in helper\<lparr>slots := (slots helper)
                       (bn_obj bn := s\<lparr>name_idx := (name_idx s)(i := idx)\<rparr>)\<rparr>)
                helper [0 ..< length (bn_attrs bn)])"

definition xb_builder_strtab_attr_value_cb ::
  "XbBuilderCompileHelper \<Rightarrow> GNodeVisit \<Rightarrow> XbBuilderCompileHelper" where
  "xb_builder_strtab_attr_value_cb helper n =
     (case v_data n of
        None \<Rightarrow> helper
      | Some bn \<Rightarrow>
          if xb_builder_node_has_flag bn XB_BUILDER_NODE_FLAG_IGNORE_CDATA then helper
          else foldl (\<lambda>helper i.
                  let (idx, helper) = xb_builder_compile_add_to_strtab helper (snd (bn_attrs bn ! i));
                      s = slots helper (bn_obj bn)
                  in helper\<lparr>slots := (slots helper)
                       (bn_obj bn := s\<lparr>value_idx := (value_idx s)(i := idx)\<rparr>)\<rparr>)
                helper [0 ..< length (bn_attrs bn)])"

definition xb_builder_strtab_text_cb ::
  "XbBuilderCompileHelper \<Rightarrow> GNodeVisit \<Rightarrow> XbBuilderCompileHelper" where
  "xb_builder_strtab_text_cb helper n =
     (case v_data n of
        None \<Rightarrow> helper
      | Some bn \<Rightarrow>
          if xb_builder_node_has_flag bn XB_BUILDER_NODE_FLAG_IGNORE_CDATA then helper
          else (case bn_text bn of
                  None \<Rightarrow> helper
                | Some tmp \<Rightarrow>
                    (let (idx, helper) = xb_builder_compile_add_to_strtab helper tmp
                     in helper\<lparr>slots := (slots helper)
                          (bn_obj bn := (slots helper (bn_obj bn))\<lparr>text_idx := idx\<rparr>)\<rparr>)))"

section \<open>Node-table passes\<close>

text \<open>
  Modelled from the spec: \<open>xb_builder_node_size\<close> is in \<open>xb-builder-node.c\<close>.  The spec's
  \<open>size_in_output\<close> is \<open>sizeof(NodeRecord) + nr_attrs * sizeof(AttrRecord)\<close> less 4 without
  text; the subtraction is the one \<open>xb_builder_nodetab_size_cb\<close> does itself.
\<close>

definition xb_builder_node_size :: "Platform \<Rightarrow> XbBuilderNode \<Rightarrow> guint32" where
  "xb_builder_node_size P bn =
     of_nat (sizeof_XbSiloNode P + length (bn_attrs bn) * sizeof_XbSiloAttr P)"

definition xb_builder_nodetab_size_cb :: "Platform \<Rightarrow> guint32 \<Rightarrow> GNodeVisit \<Rightarrow> guint32" where
  "xb_builder_nodetab_size_cb P sz n =
     (case v_data n of
        None \<Rightarrow> sz
      | Some bn \<Rightarrow>
          if xb_builder_node_has_flag bn XB_BUILDER_NODE_FLAG_IGNORE_CDATA then sz
          else (let sz = sz + (xb_builder_node_size P bn + 1)
                in if bn_text bn = None then sz - 4 else sz))"

record XbBuilderNodetabHelper =
  buf :: "BufItem list"
  level :: nat

definition xb_builder_nodetab_write_sentinel :: "XbBuilderNodetabHelper \<Rightarrow> XbBuilderNodetabHelper" where
  "xb_builder_nodetab_write_sentinel helper =
     helper\<lparr>buf := buf helper @
       [NodeItem \<lparr>is_node = False, has_text = False, nr_attrs = 0,
                  sn_element_name = 0, sn_next = 0, sn_parent = 0, sn_text = 0\<rparr>]\<rparr>"

definition xb_builder_nodetab_write_node ::
  "Platform \<Rightarrow> XbBuilderNodetabHelper \<times> (nat \<Rightarrow> XbBuilderNodeSlots) \<Rightarrow> XbBuilderNode
     \<Rightarrow> XbBuilderNodetabHelper \<times> (nat \<Rightarrow> XbBuilderNodeSlots)" where
  "xb_builder_nodetab_write_node P st bn =
     (let helper = fst st; sl = snd st; s = sl (bn_obj bn);
          sn = \<lparr>is_node = True, has_text = (bn_text bn \<noteq> None),
                nr_attrs = of_nat (length (bn_attrs bn)),
                sn_element_name = element_idx s, sn_next = 0, sn_parent = 0,
                sn_text = text_idx s\<rparr>;
          sl = sl(bn_obj bn := s\<lparr>offset := of_nat (buf_len P (buf helper))\<rparr>)
      in (helper\<lparr>buf := buf helper @ [NodeItem sn] @
                      map (\<lambda>i. AttrItem \<lparr>attr_name = name_idx s i, attr_value = value_idx s i\<rparr>)
                          [0 ..< length (bn_attrs bn)]\<rparr>,
          sl))"

text \<open>
  \<open>for (guint i = helper->level; i >= depth; i--) write_sentinel\<close>.  The depth of a node
  is at least 1, so the loop ends before \<open>i\<close> would wrap around.
\<close>

fun write_sentinels_down :: "nat \<Rightarrow> nat \<Rightarrow> XbBuilderNodetabHelper \<Rightarrow> XbBuilderNodetabHelper" where
  "write_sentinels_down 0 depth helper = helper"
| "write_sentinels_down (Suc i) depth helper =
     (if Suc i \<ge> depth
      then write_sentinels_down i depth (xb_builder_nodetab_write_sentinel helper)
      else helper)"

definition xb_builder_nodetab_write_cb ::
  "Platform \<Rightarrow> XbBuilderNodetabHelper \<times> (nat \<Rightarrow> XbBuilderNodeSlots) \<Rightarrow> GNodeVisit
     \<Rightarrow> XbBuilderNodetabHelper \<times> (nat \<Rightarrow> XbBuilderNodeSlots)" where
  "xb_builder_nodetab_write_cb P st n =
     (case v_data n of
        None \<Rightarrow> st
      | Some bn \<Rightarrow>
          if xb_builder_node_has_flag bn XB_BUILDER_NODE_FLAG_IGNORE_CDATA then st
          else (let depth = v_depth n;
                    helper = write_sentinels_down (level (fst st)) depth (fst st);
                    st = xb_builder_nodetab_write_node P (helper, snd st) bn
                in ((fst st)\<lparr>level := depth\<rparr>, snd st)))"

text \<open>\<open>for (guint i = level - 1; i > 0; i--) write_sentinel\<close>, entered when \<open>level > 0\<close>.\<close>

fun write_sentinels_trailing :: "nat \<Rightarrow> XbBuilderNodetabHelper \<Rightarrow> XbBuilderNodetabHelper" where
  "write_sentinels_trailing 0 helper = helper"
| "write_sentinels_trailing (Suc i) helper =
     write_sentinels_trailing i (xb_builder_nodetab_write_sentinel helper)"

text \<open>
  \<open>xb_builder_get_node (buf, off)\<close> casts the bytes at \<open>off\<close> to a node record.  The
  index of the record that starts at byte \<open>off\<close>, if one does.
\<close>

fun item_at :: "Platform \<Rightarrow> BufItem list \<Rightarrow> nat \<Rightarrow> nat option" where
  "item_at P [] off = None"
| "item_at P (it # its) off =
     (if off = 0 then Some 0
      else if off < item_size P it then None
      else map_option Suc (item_at P its (off - item_size P it)))"

text \<open>
  A store through \<open>sn\<close>; \<open>None\<close> when \<open>off\<close> is not the start of a node record, where
  the C code writes over other bytes.
\<close>

definition update_node ::
  "Platform \<Rightarrow> BufItem list \<Rightarrow> nat \<Rightarrow> (XbSiloNode \<Rightarrow> XbSiloNode) \<Rightarrow> BufItem list option" where
  "update_node P b off f =
     (case item_at P b off of
        None \<Rightarrow> None
      | Some i \<Rightarrow>
         (case b ! i of
            NodeItem sn \<Rightarrow> if is_node sn then Some (b[i := NodeItem (f sn)]) else None
          | _ \<Rightarrow> None))"

text \<open>
  \<open>xb_builder_node_get_offset\<close> of the sibling's data; the data of a sibling is never
  NULL in a tree that the builder makes, and \<open>None\<close> stands for the call on NULL.
\<close>

definition xb_builder_nodetab_fix_cb ::
  "Platform \<Rightarrow> (nat \<Rightarrow> XbBuilderNodeSlots) \<Rightarrow> BufItem list \<Rightarrow> GNodeVisit \<Rightarrow> BufItem list option" where
  "xb_builder_nodetab_fix_cb P sl b n =
     (case v_data n of
        None \<Rightarrow> Some b
      | Some bn \<Rightarrow>
          if xb_builder_node_has_flag bn XB_BUILDER_NODE_FLAG_IGNORE_CDATA then Some b
          else
           (let off = unat (offset (sl (bn_obj bn)));
                b1 = (case v_parent n of
                        Some (Some bn2) \<Rightarrow>
                          update_node P b off (\<lambda>sn. sn\<lparr>sn_parent := offset (sl (bn_obj bn2))\<rparr>)
                      | _ \<Rightarrow> Some b)
            in case b1 of
                 None \<Rightarrow> None
               | Some b1 \<Rightarrow>
                  (case v_next n of
                     None \<Rightarrow> Some b1
                   | Some None \<Rightarrow> None
                   | Some (Some bn2) \<Rightarrow>
                       update_node P b1 off (\<lambda>sn. sn\<lparr>sn_next := offset (sl (bn_obj bn2))\<rparr>))))"

fun fix_all ::
  "Platform \<Rightarrow> (nat \<Rightarrow> XbBuilderNodeSlots) \<Rightarrow> BufItem list \<Rightarrow> GNodeVisit list \<Rightarrow> BufItem list option" where
  "fix_all P sl b [] = Some b"
| "fix_all P sl b (n # ns) =
     (case xb_builder_nodetab_fix_cb P sl b n of
        None \<Rightarrow> None
      | Some b' \<Rightarrow> fix_all P sl b' ns)"

section \<open>The builder\<close>

record XbBuilder =
  self_imports :: "XbBuilderImport list"
  nodes :: "XbBuilderNode list"
  silo :: XbSilo
  guid :: string

text \<open>
  The XbBuilderNode objects that outlive a compile (the info nodes of the imports and
  the nodes given to \<open>xb_builder_import_node\<close>) keep their slots in \<open>node_slots\<close>;
  \<open>next_free\<close> is an identity that no live object has.
\<close>

record GObjectHeap =
  node_slots :: "nat \<Rightarrow> XbBuilderNodeSlots"
  next_free :: nat

definition xb_builder_append_guid :: "XbBuilder \<Rightarrow> string \<Rightarrow> XbBuilder" where
  "xb_builder_append_guid self g =
     (let self = (if length (guid self) > 0 then self\<lparr>guid := guid self @ ''&''\<rparr> else self)
      in self\<lparr>guid := guid self @ g\<rparr>)"

text \<open>
  \<open>xb_builder_import_xml\<close> and \<open>xb_builder_import_file\<close>, once the import object has
  been made: the identity goes to the accumulator, the import to the list.
\<close>

definition xb_builder_import :: "XbBuilder \<Rightarrow> XbBuilderImport \<Rightarrow> XbBuilder" where
  "xb_builder_import self import =
     (let self = xb_builder_append_guid self (imp_guid import)
      in self\<lparr>self_imports := self_imports self @ [import]\<rparr>)"

definition xb_builder_import_node :: "XbBuilder \<Rightarrow> XbBuilderNode \<Rightarrow> XbBuilder" where
  "xb_builder_import_node self bn = self\<lparr>nodes := nodes self @ [bn]\<rparr>"

definition xb_builder_generate_guid :: "Platform \<Rightarrow> XbBuilder \<Rightarrow> string" where
  "xb_builder_generate_guid P self = uuid_unparse P (uuid_generate_sha1 P (guid self))"

definition compile_helper_new ::
  "Platform \<Rightarrow> GObjectHeap \<Rightarrow> XbBuilderCompileFlags set \<Rightarrow> XbBuilderCompileHelper" where
  "compile_helper_new P heap fl =
     \<lparr>root = GNode None [], current = None, flags = fl, strtab_hash = [], strtab = [],
      info = None, locales = g_get_language_names P,
      slots = node_slots heap, next_obj = next_free heap\<rparr>"

text \<open>
  The body of \<open>xb_builder_compile\<close> after the tree is built, in the order of the source:
  the size pass, the four string-table passes with the tag count taken after the first,
  the header, the write pass with its trailing sentinels, the fix-up pass, and the
  string table appended.
\<close>

definition compile_nodetab_size :: "Platform \<Rightarrow> GNode \<Rightarrow> guint32" where
  "compile_nodetab_size P rt =
     foldl (xb_builder_nodetab_size_cb P) (of_nat (sizeof_XbSiloHeader P))
       (g_node_traverse_pre_order rt)"

definition compile_strtab :: "XbBuilderCompileHelper \<Rightarrow> XbBuilderCompileHelper \<times> guint32" where
  "compile_strtab helper =
     (let helper = foldl xb_builder_strtab_element_names_cb helper
                     (g_node_traverse_level_order (root helper));
          ntags = (of_nat (length (strtab_hash helper)) :: guint32);
          helper = foldl xb_builder_strtab_attr_name_cb helper
                     (g_node_traverse_level_order (root helper));
          helper = foldl xb_builder_strtab_attr_value_cb helper
                     (g_node_traverse_level_order (root helper));
          helper = foldl xb_builder_strtab_text_cb helper
                     (g_node_traverse_level_order (root helper))
      in (helper, ntags))"

definition compile_nodetab ::
  "Platform \<Rightarrow> XbSiloHeader \<Rightarrow> (nat \<Rightarrow> XbBuilderNodeSlots) \<Rightarrow> GNode
     \<Rightarrow> BufItem list \<times> (nat \<Rightarrow> XbBuilderNodeSlots)" where
  "compile_nodetab P hdr sl rt =
     (let st = foldl (xb_builder_nodetab_write_cb P)
                 (\<lparr>buf = [HeaderItem hdr], level = 0\<rparr>, sl)
                 (g_node_traverse_pre_order rt);
          nodetab_helper = (if level (fst st) > 0
                            then write_sentinels_trailing (level (fst st) - 1) (fst st)
                            else fst st)
      in (buf nodetab_helper, snd st))"

definition compile_tree ::
  "Platform \<Rightarrow> string \<Rightarrow> XbBuilderCompileHelper
     \<Rightarrow> (BufItem list \<times> (nat \<Rightarrow> XbBuilderNodeSlots)) option" where
  "compile_tree P acc helper =
     (let nodetabsz = compile_nodetab_size P (root helper);
          (helper, ntags) = compile_strtab helper;
          hdr = \<lparr>hdr_magic = XB_SILO_MAGIC_BYTES P, hdr_version = XB_SILO_VERSION P,
                 hdr_strtab = nodetabsz, hdr_strtab_ntags = ntags,
                 hdr_guid = (if length acc > 0 then uuid_generate_sha1 P acc
                             else replicate 16 0)\<rparr>;
          (b, sl) = compile_nodetab P hdr (slots helper) (root helper)
      in case fix_all P sl b (g_node_traverse_pre_order (root helper)) of
           None \<Rightarrow> None
         | Some b \<Rightarrow> Some (b @ [StrtabItem (strtab helper)], sl))"

text \<open>The tree of a compile: the imports parsed in order, then the nodes grafted.\<close>

definition compile_build_tree ::
  "Platform \<Rightarrow> GObjectHeap \<Rightarrow> XbBuilder \<Rightarrow> XbBuilderCompileFlags set
     \<Rightarrow> (GError + XbBuilderCompileHelper) option" where
  "compile_build_tree P heap self fl =
     (case compile_imports (compile_helper_new P heap fl) (self_imports self) of
        None \<Rightarrow> None
      | Some (Inl e) \<Rightarrow> Some (Inl e)
      | Some (Inr helper) \<Rightarrow>
          Some (Inr (foldl (\<lambda>h bn. h\<lparr>root := xb_builder_compile_node_tree (root h) [] bn\<rparr>)
                       helper (nodes self))))"

text \<open>The blob of a compile, before it is loaded into the builder's silo.\<close>

definition xb_builder_compile_blob ::
  "Platform \<Rightarrow> GObjectHeap \<Rightarrow> XbBuilder \<Rightarrow> XbBuilderCompileFlags set
     \<Rightarrow> (GError + BufItem list \<times> (nat \<Rightarrow> XbBuilderNodeSlots)) option" where
  "xb_builder_compile_blob P heap self fl =
     (case compile_build_tree P heap self fl of
        None \<Rightarrow> None
      | Some (Inl e) \<Rightarrow> Some (Inl e)
      | Some (Inr helper) \<Rightarrow>
         (case compile_tree P (guid self) helper of
            None \<Rightarrow> None
          | Some r \<Rightarrow> Some (Inr r)))"

text \<open>
  \<open>xb_builder_compile\<close>: the result, the builder and the heap afterwards.  A failed
  import leaves both as they were; the objects the parser made are freed with the
  helper.
\<close>

definition xb_builder_compile ::
  "Platform \<Rightarrow> GObjectHeap \<Rightarrow> XbBuilder \<Rightarrow> XbBuilderCompileFlags set
     \<Rightarrow> ((GError + XbSilo) \<times> XbBuilder \<times> GObjectHeap) option" where
  "xb_builder_compile P heap self fl =
     (case xb_builder_compile_blob P heap self fl of
        None \<Rightarrow> None
      | Some (Inl e) \<Rightarrow> Some (Inl e, self, heap)
      | Some (Inr (blob, sl)) \<Rightarrow>
         (let heap = heap\<lparr>node_slots := sl\<rparr>;
              (err, s) = xb_silo_load_from_bytes P (silo self) blob;
              self = self\<lparr>silo := s\<rparr>
          in case err of
               Some e \<Rightarrow> Some (Inl e, self, heap)
             | None \<Rightarrow> Some (Inr (silo self), self, heap)))"

section \<open>Ensure\<close>

text \<open>
  File access of the silo, over a state \<open>'w\<close> of the file system: loading a file into a
  new silo, and saving a silo to a file, which returns the file system as it leaves it
  and its error.  A GFile is its path.
\<close>

record 'w SiloFiles =
  xb_silo_load_from_file :: "'w \<Rightarrow> string \<Rightarrow> GError + XbSilo"
  xb_silo_save_to_file :: "'w \<Rightarrow> XbSilo \<Rightarrow> string \<Rightarrow> GError option \<times> 'w"

text \<open>\<open>g_strcmp0 (a, b) == 0\<close> on strings that may be NULL.\<close>

definition g_strcmp0_eq :: "string option \<Rightarrow> string option \<Rightarrow> bool" where
  "g_strcmp0_eq a b \<longleftrightarrow> a = b"

text \<open>The last three statements of \<open>xb_builder_ensure\<close>: compile, save, return.\<close>

definition ensure_fallback ::
  "Platform \<Rightarrow> 'w SiloFiles \<Rightarrow> 'w \<Rightarrow> GObjectHeap \<Rightarrow> XbBuilder \<Rightarrow> string
     \<Rightarrow> XbBuilderCompileFlags set
     \<Rightarrow> ((GError + XbSilo) \<times> XbBuilder \<times> GObjectHeap \<times> 'w) option" where
  "ensure_fallback P io w heap self file fl =
     (case xb_builder_compile P heap self fl of
        None \<Rightarrow> None
      | Some (Inl e, self, heap) \<Rightarrow> Some (Inl e, self, heap, w)
      | Some (Inr silo_new, self, heap) \<Rightarrow>
         (case xb_silo_save_to_file io w silo_new file of
            (Some e, w) \<Rightarrow> Some (Inl e, self, heap, w)
          | (None, w) \<Rightarrow> Some (Inr silo_new, self, heap, w)))"

text \<open>
  \<open>xb_builder_ensure\<close>: the result, the builder, the heap and the file system
  afterwards.  A loaded silo has bytes; \<open>None\<close> stands for \<open>xb_silo_get_bytes\<close>
  returning NULL.
\<close>

definition xb_builder_ensure ::
  "Platform \<Rightarrow> 'w SiloFiles \<Rightarrow> 'w \<Rightarrow> GObjectHeap \<Rightarrow> XbBuilder \<Rightarrow> string
     \<Rightarrow> XbBuilderCompileFlags set
     \<Rightarrow> ((GError + XbSilo) \<times> XbBuilder \<times> GObjectHeap \<times> 'w) option" where
  "xb_builder_ensure P io w heap self file fl =
     (case xb_silo_load_from_file io w file of
        Inl error_local \<Rightarrow> ensure_fallback P io w heap self file fl
      | Inr silo_tmp \<Rightarrow>
         (let g = xb_builder_generate_guid P self in
          if g_strcmp0_eq (silo_guid silo_tmp) (silo_guid (silo self))
          then Some (Inr (silo self), self, heap, w)
          else if g_strcmp0_eq (silo_guid silo_tmp) (Some g)
          then (case silo_bytes silo_tmp of
                  None \<Rightarrow> None
                | Some blob \<Rightarrow>
                   (let (err, s) = xb_silo_load_from_bytes P (silo self) blob;
                        self = self\<lparr>silo := s\<rparr>
                    in case err of
                         Some e \<Rightarrow> Some (Inl e, self, heap, w)
                       | None \<Rightarrow> Some (Inr (silo self), self, heap, w)))
          else ensure_fallback P io w heap self file fl))"

section \<open>Auxiliary definitions\<close>

text \<open>
  The invariant of the interner: the keys of the table are distinct, no key contains
  NUL, and each recorded offset is where its key, NUL-terminated, lies in the buffer.
\<close>

definition strtab_inv :: "(string \<times> guint32) list \<Rightarrow> string \<Rightarrow> bool" where
  "strtab_inv hash tb \<longleftrightarrow>
     distinct (map fst hash) \<and>
     (\<forall>s off. (s, off) \<in> set hash \<longrightarrow>
        NUL \<notin> set s \<and> take (Suc (length s)) (drop (unat off) tb) = s @ [NUL])"

text \<open>A helper with an empty tree and an empty string table.\<close>

definition helper_w :: XbBuilderCompileHelper where
  "helper_w = \<lparr>root = GNode None [], current = None, flags = {}, strtab_hash = [], strtab = [],
     info = None, locales = [], slots = (\<lambda>_. new_slots), next_obj = 0\<rparr>"

text \<open>An import whose only element is never closed, and one with a single closed element.\<close>

definition import_open :: XbBuilderImport where
  "import_open = \<lparr>imp_guid = ''bad'', imp_info = None,
     imp_chunks = [([StartElement ''a'' []], None)], imp_eof = None\<rparr>"

definition import_closed :: XbBuilderImport where
  "import_closed = \<lparr>imp_guid = ''good'', imp_info = None,
     imp_chunks = [([StartElement ''b'' [], EndElement ''b''], None)], imp_eof = None\<rparr>"

text \<open>The header of a blob, when it starts with one.\<close>

definition blob_header :: "BufItem list \<Rightarrow> XbSiloHeader option" where
  "blob_header b = (case b of HeaderItem h # r \<Rightarrow> Some h | _ \<Rightarrow> None)"

text \<open>A platform and a heap to run the builder on.\<close>

definition platform_w :: Platform where
  "platform_w =
     \<lparr>sizeof_XbSiloHeader = 32, sizeof_XbSiloNode = 17, sizeof_XbSiloAttr = 8,
      sizeof_sentinel = 1, XB_SILO_MAGIC_BYTES = 0x624c4d58, XB_SILO_VERSION = 1,
      g_get_language_names = [''en'', ''C''],
      uuid_generate_sha1 = (\<lambda>s. if s = ''u&v'' then replicate 16 1 else replicate 16 2),
      uuid_unparse = (\<lambda>g. if g = replicate 16 0 then ''zero''
                          else if g = replicate 16 1 then ''one'' else ''two''),
      xb_silo_load_from_bytes = (\<lambda>s b. case blob_header b of
          Some h \<Rightarrow> (None, \<lparr>silo_guid = Some (if hdr_guid h = replicate 16 0 then ''zero''
                          else if hdr_guid h = replicate 16 1 then ''one'' else ''two''),
                         silo_bytes = Some b\<rparr>)
        | None \<Rightarrow> (Some (GError ''G_IO_ERROR'' ''G_IO_ERROR_INVALID_DATA'' ''no header''), s))\<rparr>"

definition heap_w :: GObjectHeap where
  "heap_w = \<lparr>node_slots = (\<lambda>_. new_slots), next_free = 1000\<rparr>"

definition builder_w :: XbBuilder where
  "builder_w = \<lparr>self_imports = [], nodes = [],
     silo = \<lparr>silo_guid = None, silo_bytes = None\<rparr>, guid = []\<rparr>"

text \<open>A file system that maps a path to the silo stored there, and a header.\<close>

definition files_w :: "(string \<Rightarrow> XbSilo option) SiloFiles" where
  "files_w =
     \<lparr>xb_silo_load_from_file = (\<lambda>w f. case w f of
          None \<Rightarrow> Inl (GError ''G_IO_ERROR'' ''G_IO_ERROR_NOT_FOUND'' ''no such file'')
        | Some s \<Rightarrow> Inr s),
      xb_silo_save_to_file = (\<lambda>w s f. (None, w(f := Some s)))\<rparr>"

definition header_w :: "guint8 list \<Rightarrow> XbSiloHeader" where
  "header_w g = \<lparr>hdr_magic = 0x624c4d58, hdr_version = 1, hdr_strtab = 32,
                  hdr_strtab_ntags = 0, hdr_guid = g\<rparr>"

text \<open>Imports and an info node for the runs below; a sentinel record.\<close>

definition import_langs :: XbBuilderImport where
  "import_langs = \<lparr>imp_guid = ''u'', imp_info = None,
     imp_chunks = [([StartElement ''r'' [],
                     StartElement ''x'' [(''xml:lang'', ''en'')], EndElement ''x'',
                     StartElement ''x'' [(''xml:lang'', ''fr'')], EndElement ''x'',
                     StartElement ''x'' [(''xml:lang'', ''en'')], EndElement ''x'',
                     EndElement ''r''], None)],
     imp_eof = None\<rparr>"

definition sentinel_w :: BufItem where
  "sentinel_w = NodeItem \<lparr>is_node = False, has_text = False, nr_attrs = 0,
                  sn_element_name = 0, sn_next = 0, sn_parent = 0, sn_text = 0\<rparr>"

definition info_w :: XbBuilderNode where
  "info_w = XbBuilderNode 7 ''info'' None [] {} []"

definition import_fr_root :: XbBuilderImport where
  "import_fr_root = \<lparr>imp_guid = ''u'', imp_info = Some info_w,
     imp_chunks = [([StartElement ''r'' [(''xml:lang'', ''fr'')], EndElement ''r''], None)],
     imp_eof = None\<rparr>"

definition import_info_a :: XbBuilderImport where
  "import_info_a = \<lparr>imp_guid = ''u'', imp_info = Some info_w,
     imp_chunks = [([StartElement ''a'' [], EndElement ''a''], None)], imp_eof = None\<rparr>"

definition import_info_b :: XbBuilderImport where
  "import_info_b = \<lparr>imp_guid = ''v'', imp_info = Some info_w,
     imp_chunks = [([StartElement ''b'' [], EndElement ''b''], None)], imp_eof = None\<rparr>"



text \<open>
  Notions for the proofs about the passes: buffers whose records all have a positive
  length, a node record starting at a byte offset, the records written for one node,
  sizes of the layout that make sense, the live node of a visit, the objects whose
  offsets are valid, updates that keep the length of a record, visits that the fix-up
  pass can handle, the bytes of header and node table, and trees whose nodes all have
  data.
\<close>

definition all_pos :: "Platform \<Rightarrow> BufItem list \<Rightarrow> bool" where
  "all_pos P b \<longleftrightarrow> list_all (\<lambda>it. 0 < item_size P it) b"

definition node_at :: "Platform \<Rightarrow> BufItem list \<Rightarrow> nat \<Rightarrow> bool" where
  "node_at P b off \<longleftrightarrow>
     (\<exists>i sn. item_at P b off = Some i \<and> i < length b \<and> b ! i = NodeItem sn \<and> is_node sn)"

definition node_items :: "XbBuilderNodeSlots \<Rightarrow> XbBuilderNode \<Rightarrow> BufItem list" where
  "node_items s bn =
     NodeItem \<lparr>is_node = True, has_text = (bn_text bn \<noteq> None),
               nr_attrs = of_nat (length (bn_attrs bn)),
               sn_element_name = element_idx s, sn_next = 0, sn_parent = 0,
               sn_text = text_idx s\<rparr>
     # map (\<lambda>i. AttrItem \<lparr>attr_name = name_idx s i, attr_value = value_idx s i\<rparr>)
         [0 ..< length (bn_attrs bn)]"

definition layout_ok :: "Platform \<Rightarrow> bool" where
  "layout_ok P \<longleftrightarrow> 0 < sizeof_XbSiloHeader P \<and> 4 < sizeof_XbSiloNode P
     \<and> 0 < sizeof_XbSiloAttr P \<and> 0 < sizeof_sentinel P"

definition live :: "GNodeVisit \<Rightarrow> XbBuilderNode \<Rightarrow> bool" where
  "live v bn \<longleftrightarrow> v_data v = Some bn
     \<and> \<not> xb_builder_node_has_flag bn XB_BUILDER_NODE_FLAG_IGNORE_CDATA"

definition live_objs :: "GNodeVisit list \<Rightarrow> nat set" where
  "live_objs vs = {bn_obj bn | bn v. v \<in> set vs \<and> live v bn}"

definition offsets_ok :: "Platform \<Rightarrow> nat set \<Rightarrow> BufItem list \<Rightarrow> (nat \<Rightarrow> XbBuilderNodeSlots) \<Rightarrow> bool" where
  "offsets_ok P W b sl \<longleftrightarrow> (\<forall>obj. obj \<in> W \<longrightarrow> node_at P b (unat (offset (sl obj))))"

definition sz_pres :: "(XbSiloNode \<Rightarrow> XbSiloNode) \<Rightarrow> bool" where
  "sz_pres f \<longleftrightarrow> (\<forall>sn. is_node (f sn) = is_node sn \<and> has_text (f sn) = has_text sn)"

definition fix_ready :: "Platform \<Rightarrow> (nat \<Rightarrow> XbBuilderNodeSlots) \<Rightarrow> BufItem list \<Rightarrow> GNodeVisit \<Rightarrow> bool" where
  "fix_ready P sl b v \<longleftrightarrow>
     v_next v \<noteq> Some None \<and>
     (\<forall>bn. live v bn \<longrightarrow> node_at P b (unat (offset (sl (bn_obj bn)))))"

definition nodetab_bytes :: "Platform \<Rightarrow> GNode \<Rightarrow> nat" where
  "nodetab_bytes P rt = buf_len P (fst (compile_nodetab P (header_w []) (\<lambda>_. new_slots) rt))"

fun has_data :: "GNode \<Rightarrow> bool" where
  "has_data (GNode x ks) \<longleftrightarrow> x \<noteq> None \<and> (\<forall>k\<in>set ks. has_data k)"

text \<open>Two imports with empty streams and the identities of scenario S4.\<close>

definition import_u :: XbBuilderImport where
  "import_u = \<lparr>imp_guid = ''u'', imp_info = None, imp_chunks = [], imp_eof = None\<rparr>"

definition import_v :: XbBuilderImport where
  "import_v = \<lparr>imp_guid = ''v'', imp_info = None, imp_chunks = [], imp_eof = None\<rparr>"

section \<open>Evaluating the parser on concrete events\<close>

lemmas parser_eval_defs =
  xb_builder_compile_import_def xb_builder_compile_start_element_cb_def
  xb_builder_compile_end_element_cb_def xb_builder_compile_text_cb_def
  xb_builder_compile_node_tree_def
  xb_builder_node_new_def xb_builder_node_has_flag_def g_node_append_def Let_def

section \<open>Evaluating a compile on a concrete builder\<close>

lemmas compile_eval_defs =
  xb_builder_compile_def xb_builder_compile_blob_def compile_build_tree_def compile_tree_def
  compile_helper_new_def compile_nodetab_size_def compile_strtab_def compile_nodetab_def
  g_node_traverse_pre_order_def g_node_traverse_level_order_def
  xb_builder_nodetab_size_cb_def xb_builder_nodetab_write_cb_def xb_builder_nodetab_fix_cb_def
  xb_builder_strtab_element_names_cb_def xb_builder_strtab_attr_name_cb_def
  xb_builder_strtab_attr_value_cb_def xb_builder_strtab_text_cb_def
  xb_builder_nodetab_write_node_def xb_builder_nodetab_write_sentinel_def
  xb_builder_compile_add_to_strtab_def xb_builder_node_size_def update_node_def buf_len_def
  xb_builder_node_has_flag_def xb_builder_compile_node_tree_def g_node_append_def

lemma compile_builder_w:
  "xb_builder_compile platform_w heap_w builder_w fl =
     Some (Inr \<lparr>silo_guid = Some ''zero'',
                 silo_bytes = Some [HeaderItem (header_w (replicate 16 0)), StrtabItem []]\<rparr>,
           builder_w\<lparr>silo := \<lparr>silo_guid = Some ''zero'',
                 silo_bytes = Some [HeaderItem (header_w (replicate 16 0)), StrtabItem []]\<rparr>\<rparr>,
           heap_w\<lparr>node_slots := (\<lambda>_. new_slots)\<rparr>)"
  by (simp add: compile_eval_defs builder_w_def platform_w_def heap_w_def header_w_def
      blob_header_def Let_def)

lemmas builder_eval_defs =
  xb_builder_import_def xb_builder_append_guid_def builder_w_def platform_w_def heap_w_def
  new_slots_def NUL_def Let_def

section \<open>The buffer under the write pass and the fix-up pass\<close>

lemma buf_len_append [simp]: "buf_len P (a @ b) = buf_len P a + buf_len P b"
  by (simp add: buf_len_def)

lemma buf_len_Cons [simp]: "buf_len P (x # b) = item_size P x + buf_len P b"
  by (simp add: buf_len_def)

lemma buf_len_Nil [simp]: "buf_len P [] = 0"
  by (simp add: buf_len_def)

lemma item_at_lt: "item_at P b off = Some i \<Longrightarrow> i < length b"
  by (induction b arbitrary: off i) (auto split: if_splits)

lemma item_at_append: "item_at P b off = Some i \<Longrightarrow> item_at P (b @ ext) off = Some i"
  by (induction b arbitrary: off i) (auto split: if_splits)

lemma item_at_start:
  "all_pos P pre \<Longrightarrow> item_at P (pre @ it # post) (buf_len P pre) = Some (length pre)"
  by (induction pre) (auto simp: all_pos_def)

lemma node_at_append: "node_at P b off \<Longrightarrow> node_at P (b @ ext) off"
  unfolding node_at_def
  by (metis item_at_append item_at_lt length_append nth_append trans_less_add1)

lemma node_at_start:
  assumes "all_pos P pre" "is_node sn"
  shows "node_at P (pre @ NodeItem sn # post) (buf_len P pre)"
  unfolding node_at_def using item_at_start [OF assms(1)] assms(2) by auto

lemma all_pos_append [simp]: "all_pos P (a @ b) \<longleftrightarrow> all_pos P a \<and> all_pos P b"
  by (simp add: all_pos_def)

lemma all_pos_sentinels: "layout_ok P \<Longrightarrow> all_pos P (replicate k sentinel_w)"
  by (induction k) (simp_all add: all_pos_def sentinel_w_def layout_ok_def)

lemma all_pos_node_items: "layout_ok P \<Longrightarrow> all_pos P (node_items s bn)"
  by (auto simp: all_pos_def node_items_def layout_ok_def list_all_iff)

lemma write_sentinel_eq:
  "xb_builder_nodetab_write_sentinel h = h\<lparr>buf := buf h @ [sentinel_w]\<rparr>"
  by (simp add: xb_builder_nodetab_write_sentinel_def sentinel_w_def)

lemma write_sentinels_down_eq:
  "write_sentinels_down i d h = h\<lparr>buf := buf h @ replicate (Suc i - max d 1) sentinel_w\<rparr>"
proof (induction i arbitrary: h)
  case 0
  show ?case by simp
next
  case (Suc i)
  show ?case
  proof (cases "d \<le> Suc i")
    case True
    then have "Suc (Suc i) - max d 1 = Suc (Suc i - max d 1)" by (auto simp: max_def)
    then show ?thesis
      using True Suc.IH [of "xb_builder_nodetab_write_sentinel h"]
      by (simp add: write_sentinel_eq replicate_append_same)
  next
    case False
    then show ?thesis by (simp add: max_def)
  qed
qed

lemma write_sentinels_trailing_eq:
  "write_sentinels_trailing i h = h\<lparr>buf := buf h @ replicate i sentinel_w\<rparr>"
proof (induction i arbitrary: h)
  case 0
  show ?case by simp
next
  case (Suc i)
  show ?case
    using Suc.IH [of "xb_builder_nodetab_write_sentinel h"]
    by (simp add: write_sentinel_eq replicate_append_same)
qed

lemma write_node_eq:
  "xb_builder_nodetab_write_node P (h, sl) bn =
     (h\<lparr>buf := buf h @ node_items (sl (bn_obj bn)) bn\<rparr>,
      sl(bn_obj bn := (sl (bn_obj bn))\<lparr>offset := of_nat (buf_len P (buf h))\<rparr>))"
  by (simp add: xb_builder_nodetab_write_node_def node_items_def Let_def)

lemma write_cb_live:
  assumes "live v bn"
  shows "xb_builder_nodetab_write_cb P (h, sl) v =
     (\<lparr>buf = buf h @ replicate (Suc (level h) - max (v_depth v) 1) sentinel_w
                @ node_items (sl (bn_obj bn)) bn,
       level = v_depth v\<rparr>,
      sl(bn_obj bn := (sl (bn_obj bn))\<lparr>offset :=
           of_nat (buf_len P (buf h @ replicate (Suc (level h) - max (v_depth v) 1) sentinel_w))\<rparr>))"
  using assms
  by (simp add: live_def xb_builder_nodetab_write_cb_def write_sentinels_down_eq write_node_eq Let_def)

lemma write_cb_skip:
  assumes "\<And>bn. \<not> live v bn"
  shows "xb_builder_nodetab_write_cb P st v = st"
  using assms by (auto simp: live_def xb_builder_nodetab_write_cb_def split: option.splits)

lemma unat_of_nat_guint32: "n < 2 ^ 32 \<Longrightarrow> unat (of_nat n :: guint32) = n"
  by (simp add: unat_of_nat)

lemma write_cb_ext:
  "\<exists>ext. buf (fst (xb_builder_nodetab_write_cb P st v)) = buf (fst st) @ ext"
proof (cases "\<exists>bn. live v bn")
  case True
  then obtain bn where "live v bn" by blast
  then show ?thesis
    using write_cb_live [of v bn P "fst st" "snd st"] by simp
next
  case False
  then show ?thesis by (simp add: write_cb_skip)
qed

lemma write_pass_ext:
  "\<exists>ext. buf (fst (foldl (xb_builder_nodetab_write_cb P) st vs)) = buf (fst st) @ ext"
proof (induction vs arbitrary: st)
  case Nil
  show ?case by simp
next
  case (Cons v vs)
  obtain e1 where e1: "buf (fst (xb_builder_nodetab_write_cb P st v)) = buf (fst st) @ e1"
    using write_cb_ext by blast
  obtain e2 where "buf (fst (foldl (xb_builder_nodetab_write_cb P)
      (xb_builder_nodetab_write_cb P st v) vs)) = buf (fst (xb_builder_nodetab_write_cb P st v)) @ e2"
    using Cons.IH by blast
  then show ?case using e1 by simp
qed

lemma write_pass_mono:
  "buf_len P (buf (fst st)) \<le> buf_len P (buf (fst (foldl (xb_builder_nodetab_write_cb P) st vs)))"
proof -
  obtain ext where "buf (fst (foldl (xb_builder_nodetab_write_cb P) st vs)) = buf (fst st) @ ext"
    using write_pass_ext by blast
  then show ?thesis by simp
qed

lemma live_objs_Nil [simp]: "live_objs [] = {}"
  by (simp add: live_objs_def)

lemma live_objs_Cons_live: "live v bn \<Longrightarrow> live_objs (v # vs) = insert (bn_obj bn) (live_objs vs)"
  by (auto simp: live_objs_def live_def)

lemma live_objs_Cons_skip: "(\<And>bn. \<not> live v bn) \<Longrightarrow> live_objs (v # vs) = live_objs vs"
  by (auto simp: live_objs_def)

lemma write_cb_inv:
  assumes lay: "layout_ok P" and pos: "all_pos P (buf h)" and ok: "offsets_ok P W (buf h) sl"
    and lv: "live v bn"
    and small: "buf_len P (buf (fst (xb_builder_nodetab_write_cb P (h, sl) v))) \<le> 2 ^ 32"
  shows "all_pos P (buf (fst (xb_builder_nodetab_write_cb P (h, sl) v)))
       \<and> offsets_ok P (insert (bn_obj bn) W) (buf (fst (xb_builder_nodetab_write_cb P (h, sl) v)))
            (snd (xb_builder_nodetab_write_cb P (h, sl) v))"
proof -
  let ?pre = "buf h @ replicate (Suc (level h) - max (v_depth v) 1) sentinel_w"
  let ?s = "sl (bn_obj bn)"
  let ?sn = "\<lparr>is_node = True, has_text = (bn_text bn \<noteq> None),
               nr_attrs = of_nat (length (bn_attrs bn)),
               sn_element_name = element_idx ?s, sn_next = 0, sn_parent = 0,
               sn_text = text_idx ?s\<rparr>"
  obtain post where ni: "node_items ?s bn = NodeItem ?sn # post"
    by (simp add: node_items_def)
  have b': "buf (fst (xb_builder_nodetab_write_cb P (h, sl) v)) = ?pre @ NodeItem ?sn # post"
    using write_cb_live [OF lv, of P h sl] ni by simp
  have sl': "snd (xb_builder_nodetab_write_cb P (h, sl) v) =
      sl(bn_obj bn := ?s\<lparr>offset := of_nat (buf_len P ?pre)\<rparr>)"
    using write_cb_live [OF lv, of P h sl] by simp
  have ppre: "all_pos P ?pre"
    using pos lay by (simp add: all_pos_sentinels)
  have pni: "all_pos P (NodeItem ?sn # post)"
    using all_pos_node_items [OF lay, of ?s bn] ni by simp
  then have "0 < item_size P (NodeItem ?sn)"
    by (simp add: all_pos_def)
  then have "buf_len P ?pre < 2 ^ 32"
    using small unfolding b' by simp
  then have un: "unat (of_nat (buf_len P ?pre) :: guint32) = buf_len P ?pre"
    by (rule unat_of_nat_guint32)
  have new: "node_at P (?pre @ NodeItem ?sn # post) (buf_len P ?pre)"
    using ppre by (intro node_at_start) simp_all
  have old: "node_at P (?pre @ NodeItem ?sn # post) (unat (offset (sl obj)))" if "obj \<in> W" for obj
  proof -
    have "node_at P (buf h) (unat (offset (sl obj)))"
      using ok that by (simp add: offsets_ok_def)
    then have "node_at P (buf h @ (replicate (Suc (level h) - max (v_depth v) 1) sentinel_w
         @ NodeItem ?sn # post)) (unat (offset (sl obj)))"
      by (rule node_at_append)
    then show ?thesis by simp
  qed
  have "all_pos P (?pre @ NodeItem ?sn # post)"
    using ppre pni by simp
  moreover have "offsets_ok P (insert (bn_obj bn) W) (?pre @ NodeItem ?sn # post)
      (sl(bn_obj bn := ?s\<lparr>offset := of_nat (buf_len P ?pre)\<rparr>))"
    unfolding offsets_ok_def using new old un by auto
  ultimately show ?thesis
    unfolding b' sl' by blast
qed

lemma write_pass_inv:
  assumes "layout_ok P" "all_pos P (buf (fst st))" "offsets_ok P W (buf (fst st)) (snd st)"
    and "buf_len P (buf (fst (foldl (xb_builder_nodetab_write_cb P) st vs))) \<le> 2 ^ 32"
  shows "all_pos P (buf (fst (foldl (xb_builder_nodetab_write_cb P) st vs)))
       \<and> offsets_ok P (W \<union> live_objs vs) (buf (fst (foldl (xb_builder_nodetab_write_cb P) st vs)))
            (snd (foldl (xb_builder_nodetab_write_cb P) st vs))"
  using assms(2-4)
proof (induction vs arbitrary: st W)
  case Nil
  then show ?case by simp
next
  case (Cons v vs)
  let ?st = "xb_builder_nodetab_write_cb P st v"
  have small1: "buf_len P (buf (fst ?st)) \<le> 2 ^ 32"
    using write_pass_mono [of P ?st vs] Cons.prems(3) by simp
  show ?case
  proof (cases "\<exists>bn. live v bn")
    case True
    then obtain bn where lv: "live v bn" by blast
    obtain h sl where st: "st = (h, sl)" by (cases st)
    have "all_pos P (buf (fst ?st)) \<and> offsets_ok P (insert (bn_obj bn) W) (buf (fst ?st)) (snd ?st)"
      using write_cb_inv [OF assms(1) _ _ lv, of h W sl] Cons.prems(1,2) small1 by (simp add: st)
    then have "all_pos P (buf (fst (foldl (xb_builder_nodetab_write_cb P) ?st vs)))
       \<and> offsets_ok P (insert (bn_obj bn) W \<union> live_objs vs)
            (buf (fst (foldl (xb_builder_nodetab_write_cb P) ?st vs)))
            (snd (foldl (xb_builder_nodetab_write_cb P) ?st vs))"
      using Cons.IH [of ?st "insert (bn_obj bn) W"] Cons.prems(3) by simp
    then show ?thesis
      by (simp add: live_objs_Cons_live [OF lv])
  next
    case False
    then have sk: "?st = st" by (simp add: write_cb_skip)
    have "live_objs (v # vs) = live_objs vs"
      using False by (intro live_objs_Cons_skip) blast
    then show ?thesis
      using Cons.IH [of st W] Cons.prems sk by simp
  qed
qed

lemma item_at_sizes:
  "map (item_size P) b' = map (item_size P) b \<Longrightarrow> item_at P b' off = item_at P b off"
proof (induction b arbitrary: b' off)
  case Nil
  then show ?case by simp
next
  case (Cons x b)
  then obtain y c where b': "b' = y # c" by (cases b') auto
  have s: "item_size P y = item_size P x" and m: "map (item_size P) c = map (item_size P) b"
    using Cons.prems b' by simp_all
  show ?case
    unfolding b' using Cons.IH [OF m] s by simp
qed

lemma update_in_place:
  assumes "i < length b" "b ! i = NodeItem sn" "sz_pres f"
  shows "map (item_size P) (b[i := NodeItem (f sn)]) = map (item_size P) b"
proof -
  have "item_size P (NodeItem (f sn)) = item_size P (b ! i)"
    using assms(2,3) by (simp add: sz_pres_def)
  then show ?thesis
    using assms(1) by (simp add: map_update list_update_same_conv)
qed

lemma node_at_update:
  assumes "i < length b" "b ! i = NodeItem sn" "sz_pres f" "node_at P b off"
  shows "node_at P (b[i := NodeItem (f sn)]) off"
proof -
  from assms(4) obtain j sm where j: "item_at P b off = Some j" "j < length b"
    "b ! j = NodeItem sm" "is_node sm"
    unfolding node_at_def by blast
  have at: "item_at P (b[i := NodeItem (f sn)]) off = Some j"
    using item_at_sizes [OF update_in_place [OF assms(1-3)]] j(1) by simp
  show ?thesis
  proof (cases "j = i")
    case True
    then have "is_node (f sn)" using j(3,4) assms(2,3) by (simp add: sz_pres_def)
    then show ?thesis
      unfolding node_at_def using at True assms(1) by auto
  next
    case False
    then show ?thesis
      unfolding node_at_def using at j(2-4) by auto
  qed
qed

lemma blob_header_update:
  assumes "i < length b" "b ! i = NodeItem sn"
  shows "blob_header (b[i := NodeItem sm]) = blob_header b"
proof (cases b)
  case Nil
  then show ?thesis by simp
next
  case (Cons x c)
  show ?thesis
  proof (cases i)
    case 0
    then have "x = NodeItem sn" using assms(2) Cons by simp
    then show ?thesis using 0 Cons by (simp add: blob_header_def)
  next
    case (Suc j)
    then show ?thesis using Cons by (simp add: blob_header_def)
  qed
qed

lemma update_node_ok:
  assumes "node_at P b off" "sz_pres f"
  shows "\<exists>b'. update_node P b off f = Some b'
     \<and> (\<forall>k. node_at P b k \<longrightarrow> node_at P b' k)
     \<and> blob_header b' = blob_header b"
proof -
  from assms(1) obtain i sn where i: "item_at P b off = Some i" "i < length b"
    "b ! i = NodeItem sn" "is_node sn"
    unfolding node_at_def by blast
  have "update_node P b off f = Some (b[i := NodeItem (f sn)])"
    using i by (simp add: update_node_def)
  then show ?thesis
    using node_at_update [OF i(2,3) assms(2)] blob_header_update [OF i(2,3)] by simp
qed

lemma sz_pres_parent [simp]: "sz_pres (\<lambda>sn. sn\<lparr>sn_parent := x\<rparr>)"
  by (simp add: sz_pres_def)

lemma sz_pres_next [simp]: "sz_pres (\<lambda>sn. sn\<lparr>sn_next := x\<rparr>)"
  by (simp add: sz_pres_def)

lemma fix_cb_ok:
  assumes "fix_ready P sl b v"
  shows "\<exists>b'. xb_builder_nodetab_fix_cb P sl b v = Some b'
     \<and> (\<forall>k. node_at P b k \<longrightarrow> node_at P b' k)
     \<and> blob_header b' = blob_header b"
proof (cases "\<exists>bn. live v bn")
  case False
  then have "xb_builder_nodetab_fix_cb P sl b v = Some b"
    by (auto simp: live_def xb_builder_nodetab_fix_cb_def split: option.splits)
  then show ?thesis by simp
next
  case True
  then obtain bn where lv: "live v bn" by blast
  let ?off = "unat (offset (sl (bn_obj bn)))"
  have at: "node_at P b ?off"
    using assms lv by (simp add: fix_ready_def)
  have "\<exists>b1. (case v_parent v of
                 Some (Some bn2) \<Rightarrow>
                   update_node P b ?off (\<lambda>sn. sn\<lparr>sn_parent := offset (sl (bn_obj bn2))\<rparr>)
               | _ \<Rightarrow> Some b) = Some b1
     \<and> (\<forall>k. node_at P b k \<longrightarrow> node_at P b1 k) \<and> blob_header b1 = blob_header b"
  proof (cases "v_parent v")
    case None
    then show ?thesis by simp
  next
    case (Some p)
    show ?thesis
    proof (cases p)
      case None
      then show ?thesis using Some by simp
    next
      case (Some bn2)
      then show ?thesis
        using \<open>v_parent v = Some p\<close> update_node_ok [OF at sz_pres_parent] by simp
    qed
  qed
  then obtain b1 where b1: "(case v_parent v of
                 Some (Some bn2) \<Rightarrow>
                   update_node P b ?off (\<lambda>sn. sn\<lparr>sn_parent := offset (sl (bn_obj bn2))\<rparr>)
               | _ \<Rightarrow> Some b) = Some b1"
    and k1: "\<forall>k. node_at P b k \<longrightarrow> node_at P b1 k" and h1: "blob_header b1 = blob_header b"
    by blast
  have at1: "node_at P b1 ?off" using at k1 by blast
  have run: "xb_builder_nodetab_fix_cb P sl b v =
      (case v_next v of
         None \<Rightarrow> Some b1
       | Some None \<Rightarrow> None
       | Some (Some bn2) \<Rightarrow>
           update_node P b1 ?off (\<lambda>sn. sn\<lparr>sn_next := offset (sl (bn_obj bn2))\<rparr>))"
    using lv b1 by (simp add: live_def xb_builder_nodetab_fix_cb_def Let_def)
  show ?thesis
  proof (cases "v_next v")
    case None
    then show ?thesis using run k1 h1 by simp
  next
    case (Some q)
    then obtain bn2 where q: "q = Some bn2"
      using assms by (cases q) (auto simp: fix_ready_def)
    obtain b2 where "update_node P b1 ?off (\<lambda>sn. sn\<lparr>sn_next := offset (sl (bn_obj bn2))\<rparr>) = Some b2"
      "\<forall>k. node_at P b1 k \<longrightarrow> node_at P b2 k" "blob_header b2 = blob_header b1"
      using update_node_ok [OF at1 sz_pres_next] by blast
    then show ?thesis
      using run Some q k1 h1 by auto
  qed
qed

lemma fix_all_ok:
  assumes "\<forall>v\<in>set vs. fix_ready P sl b v"
  shows "\<exists>b'. fix_all P sl b vs = Some b' \<and> blob_header b' = blob_header b"
  using assms
proof (induction vs arbitrary: b)
  case Nil
  show ?case by simp
next
  case (Cons v vs)
  then have "fix_ready P sl b v" by simp
  then obtain b1 where b1: "xb_builder_nodetab_fix_cb P sl b v = Some b1"
    and k: "\<forall>k. node_at P b k \<longrightarrow> node_at P b1 k" and h: "blob_header b1 = blob_header b"
    using fix_cb_ok by blast
  have "\<forall>w\<in>set vs. fix_ready P sl b1 w"
    using Cons.prems k by (auto simp: fix_ready_def)
  then obtain b' where "fix_all P sl b1 vs = Some b'" "blob_header b' = blob_header b1"
    using Cons.IH by blast
  then show ?case using b1 h by simp
qed

text \<open>Whatever the fix-up pass returns starts with the header it was given.\<close>

lemma update_node_header:
  assumes "update_node P b off f = Some b'"
  shows "blob_header b' = blob_header b"
proof -
  from assms obtain i where i: "item_at P b off = Some i"
    by (cases "item_at P b off") (simp_all add: update_node_def)
  have lt: "i < length b" using i by (rule item_at_lt)
  from assms i obtain sn where sn: "b ! i = NodeItem sn" and b': "b' = b[i := NodeItem (f sn)]"
    by (cases "b ! i") (simp_all add: update_node_def split: if_splits)
  show ?thesis
    unfolding b' using lt sn by (rule blob_header_update)
qed

lemma fix_cb_header:
  assumes "xb_builder_nodetab_fix_cb P sl b v = Some b'"
  shows "blob_header b' = blob_header b"
proof (cases "\<exists>bn. live v bn")
  case False
  then have "xb_builder_nodetab_fix_cb P sl b v = Some b"
    by (auto simp: live_def xb_builder_nodetab_fix_cb_def split: option.splits)
  then show ?thesis using assms by simp
next
  case True
  then obtain bn where lv: "live v bn" by blast
  let ?off = "unat (offset (sl (bn_obj bn)))"
  let ?p = "case v_parent v of
                 Some (Some bn2) \<Rightarrow>
                   update_node P b ?off (\<lambda>sn. sn\<lparr>sn_parent := offset (sl (bn_obj bn2))\<rparr>)
               | _ \<Rightarrow> Some b"
  have run: "xb_builder_nodetab_fix_cb P sl b v =
      (case ?p of None \<Rightarrow> None
       | Some b1 \<Rightarrow>
        (case v_next v of
           None \<Rightarrow> Some b1
         | Some None \<Rightarrow> None
         | Some (Some bn2) \<Rightarrow>
             update_node P b1 ?off (\<lambda>sn. sn\<lparr>sn_next := offset (sl (bn_obj bn2))\<rparr>)))"
    using lv by (simp add: live_def xb_builder_nodetab_fix_cb_def Let_def)
  from assms run obtain b1 where b1: "?p = Some b1"
    by (cases ?p) simp_all
  have h1: "blob_header b1 = blob_header b"
  proof (cases "v_parent v")
    case None
    then show ?thesis using b1 by simp
  next
    case (Some q)
    then show ?thesis
      using b1 by (cases q) (auto dest: update_node_header)
  qed
  have nx: "(case v_next v of
           None \<Rightarrow> Some b1
         | Some None \<Rightarrow> None
         | Some (Some bn2) \<Rightarrow>
             update_node P b1 ?off (\<lambda>sn. sn\<lparr>sn_next := offset (sl (bn_obj bn2))\<rparr>)) = Some b'"
    using assms run b1 by simp
  have "blob_header b' = blob_header b1"
  proof (cases "v_next v")
    case None
    then show ?thesis using nx by simp
  next
    case (Some q)
    then show ?thesis
      using nx by (cases q) (auto dest: update_node_header)
  qed
  then show ?thesis using h1 by simp
qed

lemma fix_all_header:
  "fix_all P sl b vs = Some b' \<Longrightarrow> blob_header b' = blob_header b"
proof (induction vs arbitrary: b)
  case Nil
  then show ?case by simp
next
  case (Cons v vs)
  from Cons.prems obtain b1 where b1: "xb_builder_nodetab_fix_cb P sl b v = Some b1"
    and r: "fix_all P sl b1 vs = Some b'"
    by (cases "xb_builder_nodetab_fix_cb P sl b v") simp_all
  show ?case
    using Cons.IH [OF r] fix_cb_header [OF b1] by simp
qed

lemma foldl_preserves:
  assumes "\<And>h v. g (f h v) = g h"
  shows "g (foldl f h vs) = g h"
  by (induction vs arbitrary: h) (simp_all add: assms)

lemma add_to_strtab_root [simp]:
  "root (snd (xb_builder_compile_add_to_strtab helper s)) = root helper"
  by (simp add: xb_builder_compile_add_to_strtab_def Let_def split: option.splits)

lemma element_names_cb_root: "root (xb_builder_strtab_element_names_cb helper v) = root helper"
  by (simp add: xb_builder_strtab_element_names_cb_def Let_def split_beta split: option.splits)

lemma text_cb_root: "root (xb_builder_strtab_text_cb helper v) = root helper"
  by (simp add: xb_builder_strtab_text_cb_def Let_def split_beta split: option.splits)

lemma attr_name_cb_root: "root (xb_builder_strtab_attr_name_cb helper v) = root helper"
proof -
  have "root (foldl (\<lambda>helper i.
                  let (idx, helper) = xb_builder_compile_add_to_strtab helper (fst (bn_attrs bn ! i));
                      s = slots helper (bn_obj bn)
                  in helper\<lparr>slots := (slots helper)
                       (bn_obj bn := s\<lparr>name_idx := (name_idx s)(i := idx)\<rparr>)\<rparr>) helper is)
        = root helper" for bn "is"
    by (rule foldl_preserves) (simp add: Let_def split_beta)
  then show ?thesis
    by (simp add: xb_builder_strtab_attr_name_cb_def split: option.splits)
qed

lemma attr_value_cb_root: "root (xb_builder_strtab_attr_value_cb helper v) = root helper"
proof -
  have "root (foldl (\<lambda>helper i.
                  let (idx, helper) = xb_builder_compile_add_to_strtab helper (snd (bn_attrs bn ! i));
                      s = slots helper (bn_obj bn)
                  in helper\<lparr>slots := (slots helper)
                       (bn_obj bn := s\<lparr>value_idx := (value_idx s)(i := idx)\<rparr>)\<rparr>) helper is)
        = root helper" for bn "is"
    by (rule foldl_preserves) (simp add: Let_def split_beta)
  then show ?thesis
    by (simp add: xb_builder_strtab_attr_value_cb_def split: option.splits)
qed

lemma compile_strtab_root: "root (fst (compile_strtab helper)) = root helper"
  unfolding compile_strtab_def Let_def
  by (simp add: foldl_preserves [where g = root] element_names_cb_root attr_name_cb_root
      attr_value_cb_root text_cb_root)

lemma compile_nodetab_eq:
  "compile_nodetab P hdr sl rt =
     (buf (fst (foldl (xb_builder_nodetab_write_cb P) (\<lparr>buf = [HeaderItem hdr], level = 0\<rparr>, sl)
                  (g_node_traverse_pre_order rt)))
      @ replicate (level (fst (foldl (xb_builder_nodetab_write_cb P)
                  (\<lparr>buf = [HeaderItem hdr], level = 0\<rparr>, sl) (g_node_traverse_pre_order rt))) - 1)
          sentinel_w,
      snd (foldl (xb_builder_nodetab_write_cb P) (\<lparr>buf = [HeaderItem hdr], level = 0\<rparr>, sl)
                  (g_node_traverse_pre_order rt)))"
  by (simp add: compile_nodetab_def Let_def write_sentinels_trailing_eq)

lemma compile_nodetab_header:
  "blob_header (fst (compile_nodetab P hdr sl rt)) = Some hdr"
proof -
  obtain ext where "buf (fst (foldl (xb_builder_nodetab_write_cb P)
      (\<lparr>buf = [HeaderItem hdr], level = 0\<rparr>, sl) (g_node_traverse_pre_order rt))) = [HeaderItem hdr] @ ext"
    using write_pass_ext [of P "(\<lparr>buf = [HeaderItem hdr], level = 0\<rparr>, sl)"] by auto
  then show ?thesis
    by (simp add: compile_nodetab_eq blob_header_def)
qed

lemma blob_header_append:
  "blob_header b = Some h \<Longrightarrow> blob_header (b @ ext) = Some h"
  by (cases b) (auto simp: blob_header_def split: BufItem.splits)

lemma compile_tree_header:
  assumes "compile_tree P acc helper = Some (b, sl)"
  shows "\<exists>h. blob_header b = Some h
     \<and> hdr_guid h = (if length acc > 0 then uuid_generate_sha1 P acc else replicate 16 0)
     \<and> hdr_strtab h = compile_nodetab_size P (root helper)
     \<and> hdr_magic h = XB_SILO_MAGIC_BYTES P \<and> hdr_version h = XB_SILO_VERSION P"
proof -
  obtain helper' ntags where st: "compile_strtab helper = (helper', ntags)"
    by (cases "compile_strtab helper")
  let ?hdr = "\<lparr>hdr_magic = XB_SILO_MAGIC_BYTES P, hdr_version = XB_SILO_VERSION P,
                 hdr_strtab = compile_nodetab_size P (root helper), hdr_strtab_ntags = ntags,
                 hdr_guid = (if length acc > 0 then uuid_generate_sha1 P acc
                             else replicate 16 0)\<rparr>"
  obtain b0 sl0 where nt: "compile_nodetab P ?hdr (slots helper') (root helper') = (b0, sl0)"
    by (cases "compile_nodetab P ?hdr (slots helper') (root helper')")
  from assms obtain b1 where fx: "fix_all P sl0 b0 (g_node_traverse_pre_order (root helper')) = Some b1"
    and b: "b = b1 @ [StrtabItem (strtab helper')]"
    unfolding compile_tree_def Let_def st prod.case nt by (auto split: option.splits)
  have "blob_header b0 = Some ?hdr"
    using compile_nodetab_header [of P ?hdr "slots helper'" "root helper'"] nt by simp
  then have "blob_header b1 = Some ?hdr"
    using fix_all_header [OF fx] by simp
  then have "blob_header b = Some ?hdr"
    unfolding b by (rule blob_header_append)
  then show ?thesis by simp
qed

section \<open>The string interner deduplicates\<close>

lemma takeWhile_cstring:
  "NUL \<notin> set s \<Longrightarrow> takeWhile (\<lambda>c. c \<noteq> NUL) (s @ NUL # r) = s"
  by (induction s) auto

lemma string_at_entry:
  assumes "NUL \<notin> set s" "take (Suc (length s)) (drop k tb) = s @ [NUL]"
  shows "string_at tb k = s"
proof -
  have "drop k tb = (s @ [NUL]) @ drop (Suc (length s)) (drop k tb)"
    using assms(2) append_take_drop_id [of "Suc (length s)" "drop k tb"] by metis
  then obtain r where "drop k tb = s @ NUL # r"
    by simp
  then show ?thesis
    using assms(1) by (simp add: string_at_def takeWhile_cstring)
qed

lemma take_drop_append_keep:
  assumes "take (Suc (length s)) (drop k tb) = s @ [NUL]"
  shows "take (Suc (length s)) (drop k (tb @ ext)) = s @ [NUL]"
proof -
  have "length (take (Suc (length s)) (drop k tb)) = Suc (length s)"
    using assms by simp
  then have "Suc (length s) \<le> length tb - k" by simp
  then show ?thesis using assms by simp
qed

lemma strtab_len_mono:
  "length (strtab helper) \<le> length (strtab (snd (xb_builder_compile_add_to_strtab helper s)))"
  by (simp add: xb_builder_compile_add_to_strtab_def Let_def split: option.splits)

lemma strtab_len_mono_all:
  "length (strtab helper) \<le> length (strtab (add_all_to_strtab helper ss))"
proof (induction ss arbitrary: helper)
  case Nil
  show ?case by simp
next
  case (Cons s ss)
  show ?case
    using strtab_len_mono [of helper s] Cons.IH [of "snd (xb_builder_compile_add_to_strtab helper s)"]
    by simp
qed

lemma strtab_inv_step:
  assumes "strtab_inv (strtab_hash helper) (strtab helper)" "NUL \<notin> set s"
    and "length (strtab (snd (xb_builder_compile_add_to_strtab helper s))) \<le> 2 ^ 32"
  shows "strtab_inv (strtab_hash (snd (xb_builder_compile_add_to_strtab helper s)))
           (strtab (snd (xb_builder_compile_add_to_strtab helper s)))"
proof (cases "map_of (strtab_hash helper) s")
  case (Some v)
  then show ?thesis using assms(1) by (simp add: xb_builder_compile_add_to_strtab_def)
next
  case None
  let ?n = "length (strtab helper)"
  let ?idx = "of_nat ?n :: guint32"
  have new: "snd (xb_builder_compile_add_to_strtab helper s) =
      helper\<lparr>strtab := strtab helper @ s @ [NUL], strtab_hash := strtab_hash helper @ [(s, ?idx)]\<rparr>"
    using None by (simp add: xb_builder_compile_add_to_strtab_def Let_def)
  have fresh: "s \<notin> fst ` set (strtab_hash helper)"
    using None by (simp add: map_of_eq_None_iff)
  have "?n < 2 ^ 32"
    using assms(3) by (simp add: new)
  then have un: "unat ?idx = ?n"
    by (simp add: unat_of_nat)
  have d: "distinct (map fst (strtab_hash helper @ [(s, ?idx)]))"
    using assms(1) fresh by (simp add: strtab_inv_def)
  have e: "NUL \<notin> set t \<and> take (Suc (length t)) (drop (unat off) (strtab helper @ s @ [NUL])) = t @ [NUL]"
    if "(t, off) \<in> set (strtab_hash helper @ [(s, ?idx)])" for t off
  proof (cases "(t, off) \<in> set (strtab_hash helper)")
    case True
    then show ?thesis
      using assms(1) take_drop_append_keep unfolding strtab_inv_def by blast
  next
    case False
    then have "t = s" "off = ?idx" using that by auto
    then show ?thesis using assms(2) un by simp
  qed
  show ?thesis
    unfolding new strtab_inv_def using d e by simp
qed

lemma strtab_keys_step:
  "fst ` set (strtab_hash (snd (xb_builder_compile_add_to_strtab helper s))) =
     insert s (fst ` set (strtab_hash helper))"
  by (auto simp: xb_builder_compile_add_to_strtab_def Let_def map_of_eq_None_iff
      split: option.splits dest!: map_of_SomeD intro: rev_image_eqI)

lemma strtab_inv_all:
  assumes "strtab_inv (strtab_hash helper) (strtab helper)" "\<forall>s\<in>set ss. NUL \<notin> set s"
    and "length (strtab (add_all_to_strtab helper ss)) \<le> 2 ^ 32"
  shows "strtab_inv (strtab_hash (add_all_to_strtab helper ss)) (strtab (add_all_to_strtab helper ss))
       \<and> fst ` set (strtab_hash (add_all_to_strtab helper ss)) = fst ` set (strtab_hash helper) \<union> set ss"
  using assms
proof (induction ss arbitrary: helper)
  case Nil
  then show ?case by simp
next
  case (Cons s ss)
  let ?h = "snd (xb_builder_compile_add_to_strtab helper s)"
  have "length (strtab ?h) \<le> 2 ^ 32"
    using strtab_len_mono_all [of ?h ss] Cons.prems(3) by simp
  then have "strtab_inv (strtab_hash ?h) (strtab ?h)"
    using Cons.prems(1,2) by (intro strtab_inv_step) simp_all
  then show ?case
    using Cons.IH [of ?h] Cons.prems(2,3) strtab_keys_step [of helper s] by auto
qed

lemma strtab_inv_distinct_offsets:
  assumes "strtab_inv hash tb" "(s1, o1) \<in> set hash" "(s2, o2) \<in> set hash" "o1 \<noteq> o2"
  shows "string_at tb (unat o1) \<noteq> string_at tb (unat o2)"
proof -
  have "string_at tb (unat o1) = s1" "string_at tb (unat o2) = s2"
    using assms(1-3) string_at_entry unfolding strtab_inv_def by blast+
  moreover have "s1 \<noteq> s2"
    using assms unfolding strtab_inv_def by (metis eq_key_imp_eq_value)
  ultimately show ?thesis by simp
qed


lemma strtab_inv_empty: "strtab_inv [] []"
  by (simp add: strtab_inv_def)

text \<open>
  C7.  Start from an empty string table and intern the strings \<open>ss\<close> in order, none of
  them containing NUL, the table staying within the 32 bits of an offset.  Then interning
  a string of \<open>ss\<close> again returns the offset recorded for it and leaves the helper as it
  is, and the string read from the buffer at that offset is that string; interning a
  string not in \<open>ss\<close> appends it with a NUL at the end of the buffer and records that
  end as its offset; and the strings that start at two distinct recorded offsets differ.
\<close>

theorem strtab_dedup:
  assumes "strtab helper0 = []" and "strtab_hash helper0 = []"
    and "\<forall>t\<in>set ss. NUL \<notin> set t"
    and "length (strtab (add_all_to_strtab helper0 ss)) \<le> 2 ^ 32"
  shows "let helper = add_all_to_strtab helper0 ss in
     (\<forall>s. s \<in> set ss \<longrightarrow>
        (\<exists>off. map_of (strtab_hash helper) s = Some off
            \<and> xb_builder_compile_add_to_strtab helper s = (off, helper)
            \<and> string_at (strtab helper) (unat off) = s))
   \<and> (\<forall>s. s \<notin> set ss \<longrightarrow>
        xb_builder_compile_add_to_strtab helper s =
          (of_nat (length (strtab helper)),
           helper\<lparr>strtab := strtab helper @ s @ [NUL],
                   strtab_hash := strtab_hash helper @ [(s, of_nat (length (strtab helper)))]\<rparr>))
   \<and> (\<forall>s1 o1 s2 o2. (s1, o1) \<in> set (strtab_hash helper) \<and> (s2, o2) \<in> set (strtab_hash helper)
          \<and> o1 \<noteq> o2 \<longrightarrow>
        string_at (strtab helper) (unat o1) \<noteq> string_at (strtab helper) (unat o2))"
proof -
  let ?h = "add_all_to_strtab helper0 ss"
  have inv0: "strtab_inv (strtab_hash helper0) (strtab helper0)"
    using assms(1,2) by (simp add: strtab_inv_empty)
  have inv: "strtab_inv (strtab_hash ?h) (strtab ?h)"
    and keys: "fst ` set (strtab_hash ?h) = set ss"
    using strtab_inv_all [OF inv0 assms(3,4)] assms(2) by simp_all
  have old: "\<exists>off. map_of (strtab_hash ?h) s = Some off
            \<and> xb_builder_compile_add_to_strtab ?h s = (off, ?h)
            \<and> string_at (strtab ?h) (unat off) = s" if "s \<in> set ss" for s
  proof -
    from that keys obtain off where m: "map_of (strtab_hash ?h) s = Some off"
      by (metis domD dom_map_of_conv_image_fst)
    then have "(s, off) \<in> set (strtab_hash ?h)"
      by (rule map_of_SomeD)
    then have "string_at (strtab ?h) (unat off) = s"
      using inv string_at_entry unfolding strtab_inv_def by blast
    then show ?thesis
      using m by (simp add: xb_builder_compile_add_to_strtab_def)
  qed
  have new: "xb_builder_compile_add_to_strtab ?h s =
          (of_nat (length (strtab ?h)),
           ?h\<lparr>strtab := strtab ?h @ s @ [NUL],
                strtab_hash := strtab_hash ?h @ [(s, of_nat (length (strtab ?h)))]\<rparr>)"
    if "s \<notin> set ss" for s
  proof -
    have "map_of (strtab_hash ?h) s = None"
      using that keys by (simp add: map_of_eq_None_iff)
    then show ?thesis
      by (simp add: xb_builder_compile_add_to_strtab_def Let_def)
  qed
  have dedup: "string_at (strtab ?h) (unat o1) \<noteq> string_at (strtab ?h) (unat o2)"
    if "(s1, o1) \<in> set (strtab_hash ?h)" "(s2, o2) \<in> set (strtab_hash ?h)" "o1 \<noteq> o2"
    for s1 o1 s2 o2
    using strtab_inv_distinct_offsets [OF inv that] .
  show ?thesis
    unfolding Let_def using old new dedup by blast
qed

lemma helper_w_run:
  "add_all_to_strtab helper_w [''a'', ''b'', ''a''] =
     helper_w\<lparr>strtab := [CHR ''a'', NUL, CHR ''b'', NUL], strtab_hash := [(''a'', 0), (''b'', 2)]\<rparr>"
  by (simp add: helper_w_def xb_builder_compile_add_to_strtab_def)

theorem strtab_dedup_witness:
  "xb_builder_compile_add_to_strtab (add_all_to_strtab helper_w [''a'', ''b'', ''a'']) ''b''
       = (2, add_all_to_strtab helper_w [''a'', ''b'', ''a''])
   \<and> string_at (strtab (add_all_to_strtab helper_w [''a'', ''b'', ''a''])) 0 = ''a''
   \<and> string_at (strtab (add_all_to_strtab helper_w [''a'', ''b'', ''a''])) 2 = ''b''
   \<and> fst (xb_builder_compile_add_to_strtab (add_all_to_strtab helper_w [''a'', ''b'', ''a'']) ''c'') = 4"
proof -
  have nul: "\<forall>t\<in>set [''a'', ''b'', ''a'']. NUL \<notin> set t"
    by (simp add: NUL_def)
  have len: "length (strtab (add_all_to_strtab helper_w [''a'', ''b'', ''a''])) \<le> 2 ^ 32"
    unfolding helper_w_run by simp
  have e: "strtab helper_w = []" "strtab_hash helper_w = []"
    by (simp_all add: helper_w_def)
  note t = strtab_dedup [OF e nul len, unfolded Let_def]
  have b: "''b'' \<in> set [''a'', ''b'', ''a'']" by simp
  have c: "''c'' \<notin> set [''a'', ''b'', ''a'']" by simp
  from t b obtain off where
    "map_of (strtab_hash (add_all_to_strtab helper_w [''a'', ''b'', ''a''])) ''b'' = Some off"
    "xb_builder_compile_add_to_strtab (add_all_to_strtab helper_w [''a'', ''b'', ''a'']) ''b''
       = (off, add_all_to_strtab helper_w [''a'', ''b'', ''a''])"
    by blast
  moreover from this(1) have "off = 2" unfolding helper_w_run by simp
  moreover have "fst (xb_builder_compile_add_to_strtab (add_all_to_strtab helper_w [''a'', ''b'', ''a'']) ''c'') = 4"
    using t c unfolding helper_w_run by simp
  moreover have "string_at (strtab (add_all_to_strtab helper_w [''a'', ''b'', ''a''])) 0 = ''a''"
    "string_at (strtab (add_all_to_strtab helper_w [''a'', ''b'', ''a''])) 2 = ''b''"
    unfolding helper_w_run by (simp_all add: string_at_def NUL_def)
  ultimately show ?thesis by simp
qed

section \<open>The start-element callback under NATIVE_LANGS\<close>

lemma add_flag_sel [simp]:
  "bn_flags (xb_builder_node_add_flag bn f) = insert f (bn_flags bn)"
  "bn_attrs (xb_builder_node_add_flag bn f) = bn_attrs bn"
  "bn_element (xb_builder_node_add_flag bn f) = bn_element bn"
  "bn_text (xb_builder_node_add_flag bn f) = bn_text bn"
  "bn_obj (xb_builder_node_add_flag bn f) = bn_obj bn"
  "bn_children (xb_builder_node_add_flag bn f) = bn_children bn"
  by (cases bn; simp)+

lemma add_attribute_sel [simp]:
  "bn_flags (xb_builder_node_add_attribute bn a v) = bn_flags bn"
  "bn_attrs (xb_builder_node_add_attribute bn a v) = bn_attrs bn @ [(a, v)]"
  "bn_element (xb_builder_node_add_attribute bn a v) = bn_element bn"
  "bn_text (xb_builder_node_add_attribute bn a v) = bn_text bn"
  "bn_obj (xb_builder_node_add_attribute bn a v) = bn_obj bn"
  "bn_children (xb_builder_node_add_attribute bn a v) = bn_children bn"
  by (cases bn; simp)+

lemma lang_loop_flags:
  "bn_flags (foldl (\<lambda>b (name, lang).
        if name = ''xml:lang'' \<and> lang \<notin> set ls
        then xb_builder_node_add_flag b XB_BUILDER_NODE_FLAG_IGNORE_CDATA else b) bn attrs) =
   (if \<exists>lang. (''xml:lang'', lang) \<in> set attrs \<and> lang \<notin> set ls
    then insert XB_BUILDER_NODE_FLAG_IGNORE_CDATA (bn_flags bn) else bn_flags bn)"
proof (induction attrs arbitrary: bn)
  case Nil
  show ?case by simp
next
  case (Cons a attrs)
  obtain name lang where a: "a = (name, lang)" by (cases a)
  show ?case
    unfolding a using Cons.IH by auto
qed

lemma lang_loop_rest:
  "bn_attrs (foldl (\<lambda>b (name, lang).
        if name = ''xml:lang'' \<and> lang \<notin> set ls
        then xb_builder_node_add_flag b XB_BUILDER_NODE_FLAG_IGNORE_CDATA else b) bn attrs) = bn_attrs bn
   \<and> bn_element (foldl (\<lambda>b (name, lang).
        if name = ''xml:lang'' \<and> lang \<notin> set ls
        then xb_builder_node_add_flag b XB_BUILDER_NODE_FLAG_IGNORE_CDATA else b) bn attrs) = bn_element bn"
  by (induction attrs arbitrary: bn) (auto split: prod.splits)

lemma attr_loop:
  "bn_attrs (foldl (\<lambda>b (name, val). xb_builder_node_add_attribute b name val) bn attrs) = bn_attrs bn @ attrs
   \<and> bn_flags (foldl (\<lambda>b (name, val). xb_builder_node_add_attribute b name val) bn attrs) = bn_flags bn
   \<and> bn_element (foldl (\<lambda>b (name, val). xb_builder_node_add_attribute b name val) bn attrs) = bn_element bn"
  by (induction attrs arbitrary: bn) (auto split: prod.splits)

lemma g_node_get_append:
  "g_node_get rt p = Some n \<Longrightarrow>
   g_node_get (g_node_append rt p new) (p @ [length (kids n)]) = Some new"
proof (induction p arbitrary: rt)
  case Nil
  then show ?case by (simp add: g_node_append_def nth_append)
next
  case (Cons i p)
  then show ?case
    by (auto simp: g_node_append_def split: if_splits)
qed

text \<open>
  C4.  With the NATIVE_LANGS flag, at a start tag under a cursor whose node is the root
  or is not ignored, the callback succeeds, the cursor moves to the new last child of
  the old cursor, and that child carries the tag name, has the IGNORE_CDATA flag if and
  only if some \<open>xml:lang\<close> attribute of the tag has a value outside the captured
  locale list, and holds the attributes of the tag in declared order when it is not
  ignored and no attribute when it is.
\<close>

theorem start_element_native_langs:
  assumes "XB_BUILDER_COMPILE_FLAG_NATIVE_LANGS \<in> flags helper"
    and "current helper = Some cur"
    and "g_node_get (root helper) cur = Some n"
    and "\<forall>pbn. data n = Some pbn \<longrightarrow>
           \<not> xb_builder_node_has_flag pbn XB_BUILDER_NODE_FLAG_IGNORE_CDATA"
  shows "\<exists>helper' bn.
      xb_builder_compile_start_element_cb helper element_name attrs = Some helper'
    \<and> current helper' = Some (cur @ [length (kids n)])
    \<and> g_node_get (root helper') (cur @ [length (kids n)]) = Some (GNode (Some bn) [])
    \<and> bn_element bn = element_name
    \<and> (xb_builder_node_has_flag bn XB_BUILDER_NODE_FLAG_IGNORE_CDATA \<longleftrightarrow>
         (\<exists>lang. (''xml:lang'', lang) \<in> set attrs \<and> lang \<notin> set (locales helper)))
    \<and> bn_attrs bn = (if xb_builder_node_has_flag bn XB_BUILDER_NODE_FLAG_IGNORE_CDATA then [] else attrs)"
proof -
  let ?new = "xb_builder_node_new (next_obj helper) element_name"
  let ?lang = "foldl (\<lambda>b (name, lang).
        if name = ''xml:lang'' \<and> lang \<notin> set (locales helper)
        then xb_builder_node_add_flag b XB_BUILDER_NODE_FLAG_IGNORE_CDATA else b) ?new attrs"
  let ?bn = "if \<not> xb_builder_node_has_flag ?lang XB_BUILDER_NODE_FLAG_IGNORE_CDATA
             then foldl (\<lambda>b (name, val). xb_builder_node_add_attribute b name val) ?lang attrs
             else ?lang"
  have par: "\<not> (case data n of None \<Rightarrow> False
              | Some pbn \<Rightarrow> xb_builder_node_has_flag pbn XB_BUILDER_NODE_FLAG_IGNORE_CDATA)"
    using assms(4) by (simp split: option.splits)
  have new: "bn_flags ?new = {}" "bn_attrs ?new = []" "bn_element ?new = element_name"
    by (simp_all add: xb_builder_node_new_def)
  have run: "xb_builder_compile_start_element_cb helper element_name attrs =
      Some (helper\<lparr>root := g_node_append (root helper) cur (GNode (Some ?bn) []),
                   current := Some (cur @ [length (kids n)]),
                   slots := (slots helper)(next_obj helper := new_slots),
                   next_obj := Suc (next_obj helper)\<rparr>)"
    using assms(1-3) par new(1)
    by (simp add: xb_builder_compile_start_element_cb_def Let_def xb_builder_node_has_flag_def)
  have fl: "bn_flags ?lang =
      (if \<exists>lang. (''xml:lang'', lang) \<in> set attrs \<and> lang \<notin> set (locales helper)
       then {XB_BUILDER_NODE_FLAG_IGNORE_CDATA} else {})"
    using lang_loop_flags [of "locales helper" ?new attrs] new(1) by simp
  have ign: "xb_builder_node_has_flag ?bn XB_BUILDER_NODE_FLAG_IGNORE_CDATA \<longleftrightarrow>
         (\<exists>lang. (''xml:lang'', lang) \<in> set attrs \<and> lang \<notin> set (locales helper))"
    using fl attr_loop [of ?lang attrs] by (simp add: xb_builder_node_has_flag_def)
  have at: "bn_attrs ?bn = (if xb_builder_node_has_flag ?bn XB_BUILDER_NODE_FLAG_IGNORE_CDATA then [] else attrs)"
    using lang_loop_rest [of "locales helper" ?new attrs] attr_loop [of ?lang attrs] new(2)
    by (simp add: xb_builder_node_has_flag_def)
  have el: "bn_element ?bn = element_name"
    using lang_loop_rest [of "locales helper" ?new attrs] attr_loop [of ?lang attrs] new(3)
    by simp
  have pos: "g_node_get (g_node_append (root helper) cur (GNode (Some ?bn) [])) (cur @ [length (kids n)])
      = Some (GNode (Some ?bn) [])"
    using assms(3) by (rule g_node_get_append)
  show ?thesis
    apply (rule exI [where x = "helper\<lparr>root := g_node_append (root helper) cur (GNode (Some ?bn) []),
                   current := Some (cur @ [length (kids n)]),
                   slots := (slots helper)(next_obj helper := new_slots),
                   next_obj := Suc (next_obj helper)\<rparr>"])
    apply (rule exI [where x = ?bn])
    using run pos ign at el apply simp
    done
qed

theorem start_element_native_langs_witness:
  "\<exists>helper' bn.
      xb_builder_compile_start_element_cb
        (helper_w\<lparr>current := Some [], flags := {XB_BUILDER_COMPILE_FLAG_NATIVE_LANGS},
                   locales := [''en'', ''C'']\<rparr>) ''x'' [(''xml:lang'', ''fr'')] = Some helper'
    \<and> g_node_get (root helper') [0] = Some (GNode (Some bn) [])
    \<and> xb_builder_node_has_flag bn XB_BUILDER_NODE_FLAG_IGNORE_CDATA
    \<and> bn_attrs bn = []"
proof -
  let ?h = "helper_w\<lparr>current := Some [], flags := {XB_BUILDER_COMPILE_FLAG_NATIVE_LANGS},
                      locales := [''en'', ''C'']\<rparr>"
  have 1: "XB_BUILDER_COMPILE_FLAG_NATIVE_LANGS \<in> flags ?h" by simp
  have 2: "current ?h = Some []" by simp
  have 3: "g_node_get (root ?h) [] = Some (GNode None [])" by (simp add: helper_w_def)
  have 4: "\<forall>pbn. data (GNode None []) = Some pbn \<longrightarrow>
           \<not> xb_builder_node_has_flag pbn XB_BUILDER_NODE_FLAG_IGNORE_CDATA" by simp
  from start_element_native_langs [OF 1 2 3 4, of "''x''" "[(''xml:lang'', ''fr'')]"]
  obtain helper' bn where
    "xb_builder_compile_start_element_cb ?h ''x'' [(''xml:lang'', ''fr'')] = Some helper'"
    "g_node_get (root helper') ([] @ [length (kids (GNode None []))]) = Some (GNode (Some bn) [])"
    "xb_builder_node_has_flag bn XB_BUILDER_NODE_FLAG_IGNORE_CDATA \<longleftrightarrow>
       (\<exists>lang. (''xml:lang'', lang) \<in> set [(''xml:lang'', ''fr'')] \<and> lang \<notin> set (locales ?h))"
    "bn_attrs bn = (if xb_builder_node_has_flag bn XB_BUILDER_NODE_FLAG_IGNORE_CDATA then []
                    else [(''xml:lang'', ''fr'')])"
    by blast
  then show ?thesis
    by (intro exI [where x = helper'] exI [where x = bn]) simp
qed

section \<open>Mismatched XML\<close>

lemma parser_callbacks_append:
  "parser_callbacks helper (xs @ ys) =
     (case parser_callbacks helper xs of None \<Rightarrow> None | Some h \<Rightarrow> parser_callbacks h ys)"
  by (induction xs arbitrary: helper) (auto split: option.splits)

lemma compile_import_loop_mismatched:
  assumes "\<forall>c\<in>set chunks. snd c \<noteq> Some mismatched_xml" and "eof \<noteq> Some mismatched_xml"
  shows "map_option fst (compile_import_loop helper chunks eof) = Some (Inl mismatched_xml) \<longleftrightarrow>
     list_all (\<lambda>c. snd c = None) chunks \<and> eof = None \<and>
     (\<exists>h. parser_callbacks helper (concat (map fst chunks)) = Some h \<and> current h \<noteq> Some [])"
  using assms(1)
proof (induction chunks arbitrary: helper)
  case Nil
  show ?case
    using assms(2) by (cases eof) auto
next
  case (Cons c chunks)
  obtain evs perr where c: "c = (evs, perr)" by (cases c)
  show ?case
  proof (cases "parser_callbacks helper evs")
    case None
    then show ?thesis by (simp add: c parser_callbacks_append)
  next
    case (Some h1)
    show ?thesis
    proof (cases perr)
      case None
      then show ?thesis
        using Some Cons.IH [of h1] Cons.prems by (simp add: c parser_callbacks_append)
    next
      case (Some e)
      then have "e \<noteq> mismatched_xml" using Cons.prems by (auto simp: c)
      then show ?thesis
        using Some \<open>parser_callbacks helper evs = Some h1\<close> by (simp add: c)
    qed
  qed
qed

lemma compile_import_loop_success:
  assumes "list_all (\<lambda>c. snd c = None) chunks"
    and "parser_callbacks helper (concat (map fst chunks)) = Some h" and "current h = Some []"
  shows "compile_import_loop helper chunks None = Some (Inr (), h)"
  using assms
proof (induction chunks arbitrary: helper)
  case Nil
  then show ?case by simp
next
  case (Cons c chunks)
  obtain evs perr where c: "c = (evs, perr)" by (cases c)
  from Cons.prems(2) obtain h1 where h1: "parser_callbacks helper evs = Some h1"
    and rest: "parser_callbacks h1 (concat (map fst chunks)) = Some h"
    by (auto simp: c parser_callbacks_append split: option.splits)
  show ?case
    using Cons.IH [OF _ rest Cons.prems(3)] Cons.prems(1) h1 by (simp add: c)
qed

text \<open>
  C9.  Provided the errors of the stream itself (a failed read, a failed parse of a
  chunk) are not the Mismatched XML error: parsing an import returns the error
  \<open>G_IO_ERROR_INVALID_DATA\<close> "Mismatched XML" if and only if no chunk fails to parse,
  the stream ends without a read error, and the cursor left by the callbacks on all the
  events is not the root; and when it is the root, the import succeeds.
\<close>

theorem compile_import_mismatched_xml:
  assumes "\<forall>c\<in>set (imp_chunks import). snd c \<noteq> Some mismatched_xml"
    and "imp_eof import \<noteq> Some mismatched_xml"
  shows "(map_option fst (xb_builder_compile_import helper import) = Some (Inl mismatched_xml) \<longleftrightarrow>
            list_all (\<lambda>c. snd c = None) (imp_chunks import) \<and> imp_eof import = None \<and>
            (\<exists>h. parser_callbacks (helper\<lparr>info := imp_info import\<rparr>)
                    (concat (map fst (imp_chunks import))) = Some h \<and> current h \<noteq> Some []))
       \<and> (\<forall>h. list_all (\<lambda>c. snd c = None) (imp_chunks import) \<and> imp_eof import = None \<and>
             parser_callbacks (helper\<lparr>info := imp_info import\<rparr>)
                    (concat (map fst (imp_chunks import))) = Some h \<and> current h = Some [] \<longrightarrow>
             xb_builder_compile_import helper import = Some (Inr (), h))
       \<and> mismatched_xml = GError ''G_IO_ERROR'' ''G_IO_ERROR_INVALID_DATA'' ''Mismatched XML''"
  unfolding xb_builder_compile_import_def
  using compile_import_loop_mismatched [OF assms] compile_import_loop_success
  by (auto simp: mismatched_xml_def)

theorem compile_import_mismatched_xml_witness:
  "map_option fst (xb_builder_compile_import (helper_w\<lparr>current := Some []\<rparr>) import_open)
     = Some (Inl (GError ''G_IO_ERROR'' ''G_IO_ERROR_INVALID_DATA'' ''Mismatched XML''))
   \<and> map_option fst (xb_builder_compile_import (helper_w\<lparr>current := Some []\<rparr>) import_closed)
     = Some (Inr ())"
proof -
  have a: "\<forall>c\<in>set (imp_chunks import_open). snd c \<noteq> Some mismatched_xml"
    "imp_eof import_open \<noteq> Some mismatched_xml"
    by (simp_all add: import_open_def)
  have b: "\<forall>c\<in>set (imp_chunks import_closed). snd c \<noteq> Some mismatched_xml"
    "imp_eof import_closed \<noteq> Some mismatched_xml"
    by (simp_all add: import_closed_def)
  have run_open: "\<exists>h. parser_callbacks (helper_w\<lparr>current := Some [], info := imp_info import_open\<rparr>)
      (concat (map fst (imp_chunks import_open))) = Some h \<and> current h \<noteq> Some []"
    by (simp add: import_open_def helper_w_def xb_builder_compile_start_element_cb_def
        xb_builder_node_new_def xb_builder_node_has_flag_def g_node_append_def Let_def)
  have run_closed: "\<exists>h. parser_callbacks (helper_w\<lparr>current := Some [], info := imp_info import_closed\<rparr>)
      (concat (map fst (imp_chunks import_closed))) = Some h \<and> current h = Some []"
    by (simp add: import_closed_def helper_w_def xb_builder_compile_start_element_cb_def
        xb_builder_compile_end_element_cb_def
        xb_builder_node_new_def xb_builder_node_has_flag_def g_node_append_def Let_def)
  have 1: "map_option fst (xb_builder_compile_import (helper_w\<lparr>current := Some []\<rparr>) import_open)
     = Some (Inl mismatched_xml)"
    using compile_import_mismatched_xml [OF a, of "helper_w\<lparr>current := Some []\<rparr>"] run_open
    by (simp add: import_open_def)
  have 2: "map_option fst (xb_builder_compile_import (helper_w\<lparr>current := Some []\<rparr>) import_closed)
     = Some (Inr ())"
  proof -
    from run_closed obtain h where
      "parser_callbacks (helper_w\<lparr>current := Some [], info := imp_info import_closed\<rparr>)
          (concat (map fst (imp_chunks import_closed))) = Some h" "current h = Some []"
      by blast
    moreover have "list_all (\<lambda>c. snd c = None) (imp_chunks import_closed)" "imp_eof import_closed = None"
      by (simp_all add: import_closed_def)
    ultimately have "xb_builder_compile_import (helper_w\<lparr>current := Some []\<rparr>) import_closed = Some (Inr (), h)"
      using compile_import_mismatched_xml [OF b, of "helper_w\<lparr>current := Some []\<rparr>"] by blast
    then show ?thesis by simp
  qed
  show ?thesis
    using 1 2 by (simp add: mismatched_xml_def)
qed

section \<open>The loop over the imports\<close>

text \<open>The compile flags are never written.\<close>

lemma start_element_flags:
  "xb_builder_compile_start_element_cb helper name attrs = Some h \<Longrightarrow> flags h = flags helper"
  by (auto simp: xb_builder_compile_start_element_cb_def Let_def split: option.splits)

lemma end_element_flags:
  "xb_builder_compile_end_element_cb helper name = Some h \<Longrightarrow> flags h = flags helper"
  by (auto simp: xb_builder_compile_end_element_cb_def Let_def split: option.splits if_splits)

lemma text_flags:
  "xb_builder_compile_text_cb helper txt = Some h \<Longrightarrow> flags h = flags helper"
  by (auto simp: xb_builder_compile_text_cb_def Let_def split: option.splits if_splits)

lemma parser_callbacks_flags:
  "parser_callbacks helper evs = Some h \<Longrightarrow> flags h = flags helper"
proof (induction evs arbitrary: helper)
  case Nil
  then show ?case by simp
next
  case (Cons ev evs)
  then obtain h1 where h1: "parser_callback helper ev = Some h1" and r: "parser_callbacks h1 evs = Some h"
    by (auto split: option.splits)
  have "flags h1 = flags helper"
    using h1 by (cases ev) (auto dest: start_element_flags end_element_flags text_flags)
  then show ?case using Cons.IH [OF r] by simp
qed

lemma compile_import_loop_flags:
  "compile_import_loop helper chunks eof = Some (r, h) \<Longrightarrow> flags h = flags helper"
proof (induction chunks arbitrary: helper)
  case Nil
  then show ?case by (auto split: option.splits if_splits)
next
  case (Cons c chunks)
  obtain evs perr where c: "c = (evs, perr)" by (cases c)
  from Cons.prems obtain h1 where h1: "parser_callbacks helper evs = Some h1"
    by (auto simp: c split: option.splits)
  show ?case
  proof (cases perr)
    case None
    then show ?thesis
      using Cons.prems h1 Cons.IH [of h1] parser_callbacks_flags [OF h1] by (simp add: c)
  next
    case (Some e)
    then show ?thesis
      using Cons.prems h1 parser_callbacks_flags [OF h1] by (auto simp: c)
  qed
qed

lemma compile_import_flags:
  "xb_builder_compile_import helper import = Some (r, h) \<Longrightarrow> flags h = flags helper"
  unfolding xb_builder_compile_import_def by (drule compile_import_loop_flags) simp

lemma compile_imports_flags:
  "compile_imports helper imps = Some (Inr h) \<Longrightarrow> flags h = flags helper"
proof (induction imps arbitrary: helper)
  case Nil
  then show ?case by simp
next
  case (Cons i imps)
  from Cons.prems obtain r h1 where
    s: "xb_builder_compile_import (helper\<lparr>current := Some []\<rparr>) i = Some (r, h1)"
    by (cases "xb_builder_compile_import (helper\<lparr>current := Some []\<rparr>) i") auto
  have f: "flags h1 = flags helper"
    using compile_import_flags [OF s] by simp
  have "compile_imports h1 imps = Some (Inr h)"
    using Cons.prems s by (cases r) (simp_all split: if_splits)
  then show ?case
    using Cons.IH f by simp
qed

lemma compile_imports_append:
  "compile_imports helper (pre @ post) =
     (case compile_imports helper pre of
        None \<Rightarrow> None
      | Some (Inl e) \<Rightarrow> Some (Inl e)
      | Some (Inr h) \<Rightarrow> compile_imports h post)"
proof (induction pre arbitrary: helper)
  case Nil
  show ?case by simp
next
  case (Cons i pre)
  show ?case
    by (simp add: Cons.IH split: option.splits sum.splits prod.splits)
qed

lemma compile_imports_ignore_invalid:
  "XB_BUILDER_COMPILE_FLAG_IGNORE_INVALID \<in> flags helper \<Longrightarrow> compile_imports helper imps \<noteq> Some (Inl e)"
proof (induction imps arbitrary: helper)
  case Nil
  show ?case by simp
next
  case (Cons i imps)
  show ?case
  proof (cases "xb_builder_compile_import (helper\<lparr>current := Some []\<rparr>) i")
    case None
    then show ?thesis by simp
  next
    case (Some p)
    obtain r h where p: "p = (r, h)" by (cases p)
    have "flags h = flags helper"
      using compile_import_flags [of "helper\<lparr>current := Some []\<rparr>" i r h] Some p by simp
    then show ?thesis
      using Some p Cons by (cases r) auto
  qed
qed

text \<open>
  The loop at any position.  Wherever an import stands in the list: the imports before it are compiled first
  and an abort among them is the result; otherwise the import is parsed from the helper
  they leave with the cursor reset to the root; if that fails and IGNORE_INVALID is set,
  the loop goes on with the imports after it, from the helper the failed parse leaves;
  if it fails and the flag is not set, the result is the import's error with its message
  prefixed by "failed to compile ", the import's identity and ": "; and with the flag
  set the loop never returns an error.
\<close>

lemma compile_imports_each:
  "compile_imports helper (pre @ import # post) =
     (case compile_imports helper pre of
        None \<Rightarrow> None
      | Some (Inl e) \<Rightarrow> Some (Inl e)
      | Some (Inr h) \<Rightarrow>
         (case xb_builder_compile_import (h\<lparr>current := Some []\<rparr>) import of
            None \<Rightarrow> None
          | Some (Inr u, h') \<Rightarrow> compile_imports h' post
          | Some (Inl e, h') \<Rightarrow>
              if XB_BUILDER_COMPILE_FLAG_IGNORE_INVALID \<in> flags helper
              then compile_imports h' post
              else Some (Inl (GError (err_domain e) (err_code e)
                     (''failed to compile '' @ imp_guid import @ '': '' @ err_message e)))))
   \<and> (XB_BUILDER_COMPILE_FLAG_IGNORE_INVALID \<in> flags helper \<longrightarrow>
        (\<forall>e. compile_imports helper (pre @ import # post) \<noteq> Some (Inl e)))"
proof -
  have step: "compile_imports h (import # post) =
         (case xb_builder_compile_import (h\<lparr>current := Some []\<rparr>) import of
            None \<Rightarrow> None
          | Some (Inr u, h') \<Rightarrow> compile_imports h' post
          | Some (Inl e, h') \<Rightarrow>
              if XB_BUILDER_COMPILE_FLAG_IGNORE_INVALID \<in> flags helper
              then compile_imports h' post
              else Some (Inl (GError (err_domain e) (err_code e)
                     (''failed to compile '' @ imp_guid import @ '': '' @ err_message e))))"
    if pre: "compile_imports helper pre = Some (Inr h)" for h
  proof (cases "xb_builder_compile_import (h\<lparr>current := Some []\<rparr>) import")
    case None
    then show ?thesis by simp
  next
    case (Some p)
    obtain r h' where p: "p = (r, h')" by (cases p)
    have "flags h' = flags helper"
      using compile_imports_flags [OF pre] compile_import_flags [of "h\<lparr>current := Some []\<rparr>" import r h']
        Some p by simp
    then show ?thesis
      using Some p by (cases r) (simp_all add: prefixed_error_def)
  qed
  have first: "compile_imports helper (pre @ import # post) =
     (case compile_imports helper pre of
        None \<Rightarrow> None
      | Some (Inl e) \<Rightarrow> Some (Inl e)
      | Some (Inr h) \<Rightarrow>
         (case xb_builder_compile_import (h\<lparr>current := Some []\<rparr>) import of
            None \<Rightarrow> None
          | Some (Inr u, h') \<Rightarrow> compile_imports h' post
          | Some (Inl e, h') \<Rightarrow>
              if XB_BUILDER_COMPILE_FLAG_IGNORE_INVALID \<in> flags helper
              then compile_imports h' post
              else Some (Inl (GError (err_domain e) (err_code e)
                     (''failed to compile '' @ imp_guid import @ '': '' @ err_message e)))))"
  proof (cases "compile_imports helper pre")
    case None
    then show ?thesis by (simp add: compile_imports_append)
  next
    case (Some r)
    show ?thesis
    proof (cases r)
      case (Inl e)
      then show ?thesis using Some by (simp add: compile_imports_append)
    next
      case (Inr h)
      then show ?thesis
        using Some step [of h] by (simp add: compile_imports_append del: compile_imports.simps)
    qed
  qed
  show ?thesis
    using first compile_imports_ignore_invalid [of helper] by blast
qed

lemma import_open_run:
  "root helper = GNode None [] \<Longrightarrow>
   xb_builder_compile_import (helper\<lparr>current := Some []\<rparr>) import_open =
     Some (Inl mismatched_xml,
       helper\<lparr>root := GNode None [GNode (Some (XbBuilderNode (next_obj helper) ''a'' None [] {} [])) []],
              current := Some [0], info := None,
              slots := (slots helper)(next_obj helper := new_slots), next_obj := Suc (next_obj helper)\<rparr>)"
  by (simp add: parser_eval_defs import_open_def)

lemma import_closed_run:
  "root helper = GNode None [a] \<Longrightarrow>
   xb_builder_compile_import (helper\<lparr>current := Some []\<rparr>) import_closed =
     Some (Inr (),
       helper\<lparr>root := GNode None [a, GNode (Some (XbBuilderNode (next_obj helper) ''b'' None [] {} [])) []],
              current := Some [], info := None,
              slots := (slots helper)(next_obj helper := new_slots), next_obj := Suc (next_obj helper)\<rparr>)"
  by (simp add: parser_eval_defs import_closed_def)

lemma compile_imports_each_run:
  "compile_imports helper_w [import_open, import_closed] =
      Some (Inl (GError ''G_IO_ERROR'' ''G_IO_ERROR_INVALID_DATA'' ''failed to compile bad: Mismatched XML''))
   \<and> (\<exists>h. compile_imports (helper_w\<lparr>flags := {XB_BUILDER_COMPILE_FLAG_IGNORE_INVALID}\<rparr>)
              [import_open, import_closed] = Some (Inr h)
          \<and> map (map_option bn_element \<circ> data) (kids (root h)) = [Some ''a'', Some ''b''])"
proof -
  have fl: "flags helper_w = {}" and rt: "root helper_w = GNode None []"
    by (simp_all add: helper_w_def)
  have "compile_imports helper_w ([] @ import_open # [import_closed]) =
      Some (Inl (GError (err_domain mismatched_xml) (err_code mismatched_xml)
                 (''failed to compile '' @ imp_guid import_open @ '': '' @ err_message mismatched_xml)))"
    by (subst conjunct1 [OF compile_imports_each])
       (simp add: import_open_run [OF rt] fl del: compile_imports.simps(2))
  then have 1: "compile_imports helper_w [import_open, import_closed] =
      Some (Inl (GError ''G_IO_ERROR'' ''G_IO_ERROR_INVALID_DATA'' ''failed to compile bad: Mismatched XML''))"
    by (simp add: mismatched_xml_def import_open_def del: compile_imports.simps)
  let ?hi = "helper_w\<lparr>flags := {XB_BUILDER_COMPILE_FLAG_IGNORE_INVALID}\<rparr>"
  have rti: "root ?hi = GNode None []"
    by (simp add: helper_w_def)
  have "\<exists>h. compile_imports ?hi ([] @ import_open # [import_closed]) = Some (Inr h)
          \<and> map (map_option bn_element \<circ> data) (kids (root h)) = [Some ''a'', Some ''b'']"
    by (subst conjunct1 [OF compile_imports_each])
       (simp add: import_open_run [OF rti] import_closed_run)
  then have 2: "\<exists>h. compile_imports ?hi [import_open, import_closed] = Some (Inr h)
          \<and> map (map_option bn_element \<circ> data) (kids (root h)) = [Some ''a'', Some ''b'']"
    by (simp del: compile_imports.simps)
  show ?thesis
    using 1 2 by blast
qed

text \<open>
  At the level of \<open>xb_builder_compile\<close>: without IGNORE_INVALID, the first import that
  fails to parse makes the compile return its error, prefixed, with the builder and the
  heap as they were; with the flag the imports never make the compile fail.
\<close>

lemma compile_helper_new_flags [simp]: "flags (compile_helper_new P heap fl) = fl"
  by (simp add: compile_helper_new_def)

lemma compile_aborts:
  assumes "XB_BUILDER_COMPILE_FLAG_IGNORE_INVALID \<notin> fl"
    and "self_imports self = pre @ import # post"
    and "compile_imports (compile_helper_new P heap fl) pre = Some (Inr h)"
    and "xb_builder_compile_import (h\<lparr>current := Some []\<rparr>) import = Some (Inl e, h')"
  shows "xb_builder_compile P heap self fl =
     Some (Inl (GError (err_domain e) (err_code e)
                  (''failed to compile '' @ imp_guid import @ '': '' @ err_message e)), self, heap)"
proof -
  have "compile_imports (compile_helper_new P heap fl) (self_imports self) =
      Some (Inl (GError (err_domain e) (err_code e)
                  (''failed to compile '' @ imp_guid import @ '': '' @ err_message e)))"
    unfolding assms(2)
    by (subst conjunct1 [OF compile_imports_each]) (simp add: assms(1,3,4))
  then show ?thesis
    by (simp add: xb_builder_compile_def xb_builder_compile_blob_def compile_build_tree_def)
qed

lemma compile_ignore_invalid_no_abort:
  assumes "XB_BUILDER_COMPILE_FLAG_IGNORE_INVALID \<in> fl"
  shows "compile_build_tree P heap self fl \<noteq> Some (Inl e)"
proof -
  have "compile_imports (compile_helper_new P heap fl) (self_imports self) \<noteq> Some (Inl e)"
    using assms by (intro compile_imports_ignore_invalid) simp
  then show ?thesis
    by (cases "compile_imports (compile_helper_new P heap fl) (self_imports self)")
       (auto simp: compile_build_tree_def split: sum.splits)
qed

lemma open_closed_tree:
  "compile_build_tree platform_w heap_w
      (xb_builder_import (xb_builder_import builder_w import_open) import_closed)
      {XB_BUILDER_COMPILE_FLAG_IGNORE_INVALID} =
   Some (Inr \<lparr>root = GNode None
        [GNode (Some (XbBuilderNode 1000 ''a'' None [] {} [])) [],
         GNode (Some (XbBuilderNode 1001 ''b'' None [] {} [])) []],
      current = Some [], flags = {XB_BUILDER_COMPILE_FLAG_IGNORE_INVALID},
      strtab_hash = [], strtab = [], info = None, locales = [''en'', ''C''],
      slots = (\<lambda>_. new_slots)(1000 := new_slots, 1001 := new_slots), next_obj = 1002\<rparr>)"
  by (simp add: compile_build_tree_def compile_helper_new_def parser_eval_defs import_open_def
      import_closed_def builder_eval_defs)

text \<open>
  C8 at a failing input.  Two imports, the first with the events of \<open><a>\<close> and no end
  tag, the second with those of \<open><b/>\<close>.  Parsing the first from the new helper fails
  with Mismatched XML.  Without IGNORE_INVALID the compile aborts and returns that error
  with the prefix naming the import, as the claim says.  With IGNORE_INVALID the loop
  goes on from the helper that the failed parse leaves: only the cursor is reset, the
  node \<open>a\<close> that the failed import had appended stays under the root, and the blob
  holds its record at offset 32 and its name in the string table.  The failed import is
  not skipped.
\<close>

theorem ignore_invalid_keeps_nodes:
  "map_option fst (xb_builder_compile_import
       ((compile_helper_new platform_w heap_w {XB_BUILDER_COMPILE_FLAG_IGNORE_INVALID})
          \<lparr>current := Some []\<rparr>) import_open)
     = Some (Inl (GError ''G_IO_ERROR'' ''G_IO_ERROR_INVALID_DATA'' ''Mismatched XML''))
   \<and> xb_builder_compile platform_w heap_w
       (xb_builder_import (xb_builder_import builder_w import_open) import_closed) {}
     = Some (Inl (GError ''G_IO_ERROR'' ''G_IO_ERROR_INVALID_DATA''
                    ''failed to compile bad: Mismatched XML''),
             xb_builder_import (xb_builder_import builder_w import_open) import_closed, heap_w)
   \<and> map_option (map_sum id fst)
       (xb_builder_compile_blob platform_w heap_w
          (xb_builder_import (xb_builder_import builder_w import_open) import_closed)
          {XB_BUILDER_COMPILE_FLAG_IGNORE_INVALID})
     = Some (Inr
        [HeaderItem \<lparr>hdr_magic = 0x624c4d58, hdr_version = 1, hdr_strtab = 60,
                      hdr_strtab_ntags = 2, hdr_guid = replicate 16 2\<rparr>,
         NodeItem \<lparr>is_node = True, has_text = False, nr_attrs = 0,
                    sn_element_name = 0, sn_next = 46, sn_parent = 0, sn_text = 0\<rparr>,
         sentinel_w,
         NodeItem \<lparr>is_node = True, has_text = False, nr_attrs = 0,
                    sn_element_name = 2, sn_next = 0, sn_parent = 0, sn_text = 0\<rparr>,
         sentinel_w,
         StrtabItem (''a'' @ [NUL] @ ''b'' @ [NUL])])"
proof -
  let ?self = "xb_builder_import (xb_builder_import builder_w import_open) import_closed"
  let ?h0 = "compile_helper_new platform_w heap_w {}"
  have rt: "root (compile_helper_new platform_w heap_w fl) = GNode None []" for fl
    by (simp add: compile_helper_new_def)
  have 1: "map_option fst (xb_builder_compile_import
       ((compile_helper_new platform_w heap_w {XB_BUILDER_COMPILE_FLAG_IGNORE_INVALID})
          \<lparr>current := Some []\<rparr>) import_open)
     = Some (Inl (GError ''G_IO_ERROR'' ''G_IO_ERROR_INVALID_DATA'' ''Mismatched XML''))"
    by (simp add: import_open_run [OF rt] mismatched_xml_def)
  have imps: "self_imports ?self = [] @ import_open # [import_closed]"
    by (simp add: xb_builder_import_def xb_builder_append_guid_def builder_w_def Let_def)
  have "xb_builder_compile platform_w heap_w ?self {} =
     Some (Inl (GError (err_domain mismatched_xml) (err_code mismatched_xml)
                  (''failed to compile '' @ imp_guid import_open @ '': '' @ err_message mismatched_xml)),
           ?self, heap_w)"
    by (rule compile_aborts [OF _ imps _ import_open_run [OF rt]]) simp_all
  then have 2: "xb_builder_compile platform_w heap_w ?self {}
     = Some (Inl (GError ''G_IO_ERROR'' ''G_IO_ERROR_INVALID_DATA''
                    ''failed to compile bad: Mismatched XML''), ?self, heap_w)"
    by (simp add: mismatched_xml_def import_open_def)
  have 3: "map_option (map_sum id fst)
       (xb_builder_compile_blob platform_w heap_w ?self {XB_BUILDER_COMPILE_FLAG_IGNORE_INVALID})
     = Some (Inr
        [HeaderItem \<lparr>hdr_magic = 0x624c4d58, hdr_version = 1, hdr_strtab = 60,
                      hdr_strtab_ntags = 2, hdr_guid = replicate 16 2\<rparr>,
         NodeItem \<lparr>is_node = True, has_text = False, nr_attrs = 0,
                    sn_element_name = 0, sn_next = 46, sn_parent = 0, sn_text = 0\<rparr>,
         sentinel_w,
         NodeItem \<lparr>is_node = True, has_text = False, nr_attrs = 0,
                    sn_element_name = 2, sn_next = 0, sn_parent = 0, sn_text = 0\<rparr>,
         sentinel_w,
         StrtabItem (''a'' @ [NUL] @ ''b'' @ [NUL])])"
    unfolding xb_builder_compile_blob_def open_closed_tree
    by (simp add: compile_eval_defs sentinel_w_def builder_eval_defs import_open_def
        import_closed_def)
  show ?thesis
    using 1 2 3 by (intro conjI)
qed

section \<open>Ensure\<close>

text \<open>
  C5.  The decision order of ensure.  When the file loads and its GUID is that of the
  builder's current silo, the current silo is returned and the builder, the heap and the
  file system are as before.  Else, when the file's GUID is the one generated from the
  accumulator, the bytes of the file are loaded into the current silo, which is
  returned (or the loader's error is), and heap and file system are as before.
  Otherwise, also when the file does not load, the result is that of a compile followed
  by a save to the file: an error of the compile as it is, an error of the save as it
  is, and else the new silo.
\<close>

theorem ensure_decision_order:
  "(\<forall>silo_tmp. xb_silo_load_from_file io w file = Inr silo_tmp
        \<and> silo_guid silo_tmp = silo_guid (silo self) \<longrightarrow>
      xb_builder_ensure P io w heap self file fl = Some (Inr (silo self), self, heap, w))
 \<and> (\<forall>silo_tmp blob. xb_silo_load_from_file io w file = Inr silo_tmp
        \<and> silo_guid silo_tmp \<noteq> silo_guid (silo self)
        \<and> silo_guid silo_tmp = Some (xb_builder_generate_guid P self)
        \<and> silo_bytes silo_tmp = Some blob \<longrightarrow>
      xb_builder_ensure P io w heap self file fl =
        (case xb_silo_load_from_bytes P (silo self) blob of
           (None, s) \<Rightarrow> Some (Inr s, self\<lparr>silo := s\<rparr>, heap, w)
         | (Some e, s) \<Rightarrow> Some (Inl e, self\<lparr>silo := s\<rparr>, heap, w)))
 \<and> ((\<exists>e. xb_silo_load_from_file io w file = Inl e)
      \<or> (\<exists>silo_tmp. xb_silo_load_from_file io w file = Inr silo_tmp
            \<and> silo_guid silo_tmp \<noteq> silo_guid (silo self)
            \<and> silo_guid silo_tmp \<noteq> Some (xb_builder_generate_guid P self)) \<longrightarrow>
      xb_builder_ensure P io w heap self file fl =
        (case xb_builder_compile P heap self fl of
           None \<Rightarrow> None
         | Some (Inl e, self', heap') \<Rightarrow> Some (Inl e, self', heap', w)
         | Some (Inr silo_new, self', heap') \<Rightarrow>
            (case xb_silo_save_to_file io w silo_new file of
               (Some e, w') \<Rightarrow> Some (Inl e, self', heap', w')
             | (None, w') \<Rightarrow> Some (Inr silo_new, self', heap', w'))))"
proof (intro conjI allI impI)
  fix silo_tmp
  assume "xb_silo_load_from_file io w file = Inr silo_tmp \<and> silo_guid silo_tmp = silo_guid (silo self)"
  then show "xb_builder_ensure P io w heap self file fl = Some (Inr (silo self), self, heap, w)"
    by (simp add: xb_builder_ensure_def g_strcmp0_eq_def)
next
  fix silo_tmp blob
  assume a: "xb_silo_load_from_file io w file = Inr silo_tmp
        \<and> silo_guid silo_tmp \<noteq> silo_guid (silo self)
        \<and> silo_guid silo_tmp = Some (xb_builder_generate_guid P self)
        \<and> silo_bytes silo_tmp = Some blob"
  obtain err s where l: "xb_silo_load_from_bytes P (silo self) blob = (err, s)"
    by (cases "xb_silo_load_from_bytes P (silo self) blob")
  show "xb_builder_ensure P io w heap self file fl =
        (case xb_silo_load_from_bytes P (silo self) blob of
           (None, s) \<Rightarrow> Some (Inr s, self\<lparr>silo := s\<rparr>, heap, w)
         | (Some e, s) \<Rightarrow> Some (Inl e, self\<lparr>silo := s\<rparr>, heap, w))"
  proof -
    from a have ld: "xb_silo_load_from_file io w file = Inr silo_tmp"
      and ne: "\<not> g_strcmp0_eq (silo_guid silo_tmp) (silo_guid (silo self))"
      and eq: "g_strcmp0_eq (silo_guid silo_tmp) (Some (xb_builder_generate_guid P self))"
      and bt: "silo_bytes silo_tmp = Some blob"
      unfolding g_strcmp0_eq_def by blast+
    show ?thesis
      unfolding xb_builder_ensure_def Let_def using l
      by (cases err; simp only: ld ne eq bt sum.case if_True if_False option.case prod.case; simp)
  qed
next
  assume a: "(\<exists>e. xb_silo_load_from_file io w file = Inl e)
      \<or> (\<exists>silo_tmp. xb_silo_load_from_file io w file = Inr silo_tmp
            \<and> silo_guid silo_tmp \<noteq> silo_guid (silo self)
            \<and> silo_guid silo_tmp \<noteq> Some (xb_builder_generate_guid P self))"
  have "xb_builder_ensure P io w heap self file fl = ensure_fallback P io w heap self file fl"
    using a by (auto simp: xb_builder_ensure_def g_strcmp0_eq_def Let_def)
  then show "xb_builder_ensure P io w heap self file fl =
        (case xb_builder_compile P heap self fl of
           None \<Rightarrow> None
         | Some (Inl e, self', heap') \<Rightarrow> Some (Inl e, self', heap', w)
         | Some (Inr silo_new, self', heap') \<Rightarrow>
            (case xb_silo_save_to_file io w silo_new file of
               (Some e, w') \<Rightarrow> Some (Inl e, self', heap', w')
             | (None, w') \<Rightarrow> Some (Inr silo_new, self', heap', w')))"
    by (simp add: ensure_fallback_def split: option.splits sum.splits prod.splits)
qed

theorem ensure_decision_order_witness:
  "fst (the (xb_builder_ensure platform_w files_w
         ((\<lambda>_. None)(''f'' := Some \<lparr>silo_guid = Some ''one'', silo_bytes = Some []\<rparr>))
         heap_w (builder_w\<lparr>silo := \<lparr>silo_guid = Some ''one'', silo_bytes = None\<rparr>\<rparr>) ''f'' {}))
     = Inr \<lparr>silo_guid = Some ''one'', silo_bytes = None\<rparr>
   \<and> fst (the (xb_builder_ensure platform_w files_w
         ((\<lambda>_. None)(''f'' := Some \<lparr>silo_guid = Some ''two'',
                                         silo_bytes = Some [HeaderItem (header_w (replicate 16 2))]\<rparr>))
         heap_w (builder_w\<lparr>guid := ''x''\<rparr>) ''f'' {}))
     = Inr \<lparr>silo_guid = Some ''two'', silo_bytes = Some [HeaderItem (header_w (replicate 16 2))]\<rparr>
   \<and> (\<exists>w'. xb_builder_ensure platform_w files_w (\<lambda>_. None) heap_w builder_w ''f'' {} =
          Some (Inr \<lparr>silo_guid = Some ''zero'',
                 silo_bytes = Some [HeaderItem (header_w (replicate 16 0)), StrtabItem []]\<rparr>,
           builder_w\<lparr>silo := \<lparr>silo_guid = Some ''zero'',
                 silo_bytes = Some [HeaderItem (header_w (replicate 16 0)), StrtabItem []]\<rparr>\<rparr>,
           heap_w\<lparr>node_slots := (\<lambda>_. new_slots)\<rparr>, w')
        \<and> w' ''f'' = Some \<lparr>silo_guid = Some ''zero'',
                 silo_bytes = Some [HeaderItem (header_w (replicate 16 0)), StrtabItem []]\<rparr>)"
proof -
  let ?w1 = "(\<lambda>_. None)(''f'' := Some \<lparr>silo_guid = Some ''one'', silo_bytes = Some []\<rparr>)
               :: string \<Rightarrow> XbSilo option"
  let ?b1 = "builder_w\<lparr>silo := \<lparr>silo_guid = Some ''one'', silo_bytes = None\<rparr>\<rparr>"
  let ?w2 = "(\<lambda>_. None)(''f'' := Some \<lparr>silo_guid = Some ''two'',
                                         silo_bytes = Some [HeaderItem (header_w (replicate 16 2))]\<rparr>)
               :: string \<Rightarrow> XbSilo option"
  let ?b2 = "builder_w\<lparr>guid := ''x''\<rparr>"
  let ?w3 = "(\<lambda>_. None) :: string \<Rightarrow> XbSilo option"
  note t1 = ensure_decision_order [of files_w ?w1 "''f''" ?b1 platform_w heap_w "{}"]
  note t2 = ensure_decision_order [of files_w ?w2 "''f''" ?b2 platform_w heap_w "{}"]
  note t3 = ensure_decision_order [of files_w ?w3 "''f''" builder_w platform_w heap_w "{}"]
  have 1: "xb_builder_ensure platform_w files_w ?w1 heap_w ?b1 ''f'' {} = Some (Inr (silo ?b1), ?b1, heap_w, ?w1)"
    using t1 [THEN conjunct1] by (simp add: files_w_def)
  have l2: "xb_silo_load_from_file files_w ?w2 ''f'' = Inr \<lparr>silo_guid = Some ''two'',
                                         silo_bytes = Some [HeaderItem (header_w (replicate 16 2))]\<rparr>"
    by (simp add: files_w_def)
  have g2: "xb_builder_generate_guid platform_w ?b2 = ''two''"
    by (simp add: xb_builder_generate_guid_def platform_w_def)
  have s2: "silo ?b2 = \<lparr>silo_guid = None, silo_bytes = None\<rparr>"
    by (simp add: builder_w_def)
  have ld2: "xb_silo_load_from_bytes platform_w \<lparr>silo_guid = None, silo_bytes = None\<rparr>
       [HeaderItem (header_w (replicate 16 2))] =
       (None, \<lparr>silo_guid = Some ''two'', silo_bytes = Some [HeaderItem (header_w (replicate 16 2))]\<rparr>)"
    by (simp add: platform_w_def blob_header_def header_w_def)
  have 2: "xb_builder_ensure platform_w files_w ?w2 heap_w ?b2 ''f'' {} =
      Some (Inr \<lparr>silo_guid = Some ''two'', silo_bytes = Some [HeaderItem (header_w (replicate 16 2))]\<rparr>,
            ?b2\<lparr>silo := \<lparr>silo_guid = Some ''two'', silo_bytes = Some [HeaderItem (header_w (replicate 16 2))]\<rparr>\<rparr>,
            heap_w, ?w2)"
    using t2 [THEN conjunct2, THEN conjunct1] l2 g2 by (simp add: s2 ld2)
  have l3: "xb_silo_load_from_file files_w ?w3 ''f'' =
       Inl (GError ''G_IO_ERROR'' ''G_IO_ERROR_NOT_FOUND'' ''no such file'')"
    by (simp add: files_w_def)
  have 3: "xb_builder_ensure platform_w files_w ?w3 heap_w builder_w ''f'' {} =
          Some (Inr \<lparr>silo_guid = Some ''zero'',
                 silo_bytes = Some [HeaderItem (header_w (replicate 16 0)), StrtabItem []]\<rparr>,
           builder_w\<lparr>silo := \<lparr>silo_guid = Some ''zero'',
                 silo_bytes = Some [HeaderItem (header_w (replicate 16 0)), StrtabItem []]\<rparr>\<rparr>,
           heap_w\<lparr>node_slots := (\<lambda>_. new_slots)\<rparr>,
           ?w3(''f'' := Some \<lparr>silo_guid = Some ''zero'',
                 silo_bytes = Some [HeaderItem (header_w (replicate 16 0)), StrtabItem []]\<rparr>))"
    using t3 [THEN conjunct2, THEN conjunct2] l3
    by (simp add: compile_builder_w) (simp add: files_w_def)
  show ?thesis
    unfolding 1 2 3 by (simp add: builder_w_def)
qed

section \<open>The GUID accumulator\<close>

lemma compile_blob_header:
  assumes "xb_builder_compile_blob P heap self fl = Some (Inr (b, sl))"
  shows "map_option hdr_guid (blob_header b) =
     Some (if length (guid self) > 0 then uuid_generate_sha1 P (guid self) else replicate 16 0)"
proof -
  have "\<exists>helper. compile_tree P (guid self) helper = Some (b, sl)"
  proof (cases "compile_build_tree P heap self fl")
    case None
    then show ?thesis using assms by (simp add: xb_builder_compile_blob_def)
  next
    case (Some r)
    show ?thesis
    proof (cases r)
      case (Inl e)
      then show ?thesis using assms Some by (simp add: xb_builder_compile_blob_def)
    next
      case (Inr helper)
      then have "compile_tree P (guid self) helper = Some (b, sl)"
        using assms Some by (cases "compile_tree P (guid self) helper")
          (simp_all add: xb_builder_compile_blob_def)
      then show ?thesis by blast
    qed
  qed
  then obtain helper where "compile_tree P (guid self) helper = Some (b, sl)" by blast
  from compile_tree_header [OF this] obtain h where "blob_header b = Some h"
    "hdr_guid h = (if length (guid self) > 0 then uuid_generate_sha1 P (guid self) else replicate 16 0)"
    by blast
  then show ?thesis by simp
qed

text \<open>
  C6.  \<open>xb_builder_append_guid\<close> leaves the token alone when the accumulator is empty
  and joins it with "&" otherwise.  From an empty accumulator, importing identities "u"
  then "v" gives the accumulator "u&v", and "v" then "u" gives "v&u".  The guid field of
  the header of a compiled blob is the name-based UUID of the accumulator, so the two
  headers carry the UUIDs of "u&v" and of "v&u", which differ when the UUID function
  tells these two strings apart.
\<close>

theorem append_guid_order:
  "guid (xb_builder_append_guid self token) =
     (if guid self = [] then token else guid self @ ''&'' @ token)
   \<and> (guid self = [] \<and> imp_guid iu = ''u'' \<and> imp_guid iv = ''v'' \<longrightarrow>
        guid (xb_builder_import (xb_builder_import self iu) iv) = ''u&v''
      \<and> guid (xb_builder_import (xb_builder_import self iv) iu) = ''v&u''
      \<and> (\<forall>P heap1 heap2 fl1 fl2 b1 sl1 b2 sl2.
            xb_builder_compile_blob P heap1 (xb_builder_import (xb_builder_import self iu) iv) fl1
              = Some (Inr (b1, sl1))
          \<and> xb_builder_compile_blob P heap2 (xb_builder_import (xb_builder_import self iv) iu) fl2
              = Some (Inr (b2, sl2)) \<longrightarrow>
            map_option hdr_guid (blob_header b1) = Some (uuid_generate_sha1 P ''u&v'')
          \<and> map_option hdr_guid (blob_header b2) = Some (uuid_generate_sha1 P ''v&u'')
          \<and> (uuid_generate_sha1 P ''u&v'' \<noteq> uuid_generate_sha1 P ''v&u'' \<longrightarrow>
               map_option hdr_guid (blob_header b1) \<noteq> map_option hdr_guid (blob_header b2))))"
proof -
  have rule: "guid (xb_builder_append_guid self token) =
     (if guid self = [] then token else guid self @ ''&'' @ token)" for self token
    by (simp add: xb_builder_append_guid_def Let_def)
  have imp: "guid (xb_builder_import s i) = guid (xb_builder_append_guid s (imp_guid i))" for s i
    by (simp add: xb_builder_import_def Let_def)
  have uv: "guid (xb_builder_import (xb_builder_import self iu) iv) = ''u&v''"
    and vu: "guid (xb_builder_import (xb_builder_import self iv) iu) = ''v&u''"
    if "guid self = []" "imp_guid iu = ''u''" "imp_guid iv = ''v''"
    using that by (simp_all add: imp rule)
  have second: "guid (xb_builder_import (xb_builder_import self iu) iv) = ''u&v''
      \<and> guid (xb_builder_import (xb_builder_import self iv) iu) = ''v&u''
      \<and> (\<forall>P heap1 heap2 fl1 fl2 b1 sl1 b2 sl2.
            xb_builder_compile_blob P heap1 (xb_builder_import (xb_builder_import self iu) iv) fl1
              = Some (Inr (b1, sl1))
          \<and> xb_builder_compile_blob P heap2 (xb_builder_import (xb_builder_import self iv) iu) fl2
              = Some (Inr (b2, sl2)) \<longrightarrow>
            map_option hdr_guid (blob_header b1) = Some (uuid_generate_sha1 P ''u&v'')
          \<and> map_option hdr_guid (blob_header b2) = Some (uuid_generate_sha1 P ''v&u'')
          \<and> (uuid_generate_sha1 P ''u&v'' \<noteq> uuid_generate_sha1 P ''v&u'' \<longrightarrow>
               map_option hdr_guid (blob_header b1) \<noteq> map_option hdr_guid (blob_header b2)))"
    if pre: "guid self = [] \<and> imp_guid iu = ''u'' \<and> imp_guid iv = ''v''"
  proof -
    have g1: "guid (xb_builder_import (xb_builder_import self iu) iv) = ''u&v''"
      and g2: "guid (xb_builder_import (xb_builder_import self iv) iu) = ''v&u''"
      using uv vu pre by blast+
    have hd: "map_option hdr_guid (blob_header b1) = Some (uuid_generate_sha1 P ''u&v'')
          \<and> map_option hdr_guid (blob_header b2) = Some (uuid_generate_sha1 P ''v&u'')
          \<and> (uuid_generate_sha1 P ''u&v'' \<noteq> uuid_generate_sha1 P ''v&u'' \<longrightarrow>
               map_option hdr_guid (blob_header b1) \<noteq> map_option hdr_guid (blob_header b2))"
      if c: "xb_builder_compile_blob P heap1 (xb_builder_import (xb_builder_import self iu) iv) fl1
              = Some (Inr (b1, sl1))
          \<and> xb_builder_compile_blob P heap2 (xb_builder_import (xb_builder_import self iv) iu) fl2
              = Some (Inr (b2, sl2))"
      for P heap1 heap2 fl1 fl2 b1 sl1 b2 sl2
    proof -
      have "map_option hdr_guid (blob_header b1) = Some (uuid_generate_sha1 P ''u&v'')"
        using compile_blob_header [OF c [THEN conjunct1]] by (simp add: g1)
      moreover have "map_option hdr_guid (blob_header b2) = Some (uuid_generate_sha1 P ''v&u'')"
        using compile_blob_header [OF c [THEN conjunct2]] by (simp add: g2)
      ultimately show ?thesis by auto
    qed
    show ?thesis
      using g1 g2 hd by blast
  qed
  show ?thesis
    using rule [of self token] second by blast
qed

lemma compile_blob_uv:
  "\<exists>b sl. xb_builder_compile_blob platform_w heap_w
       (xb_builder_import (xb_builder_import builder_w import_u) import_v) {} = Some (Inr (b, sl))"
  by (simp add: compile_eval_defs builder_eval_defs parser_eval_defs import_u_def import_v_def)

lemma compile_blob_vu:
  "\<exists>b sl. xb_builder_compile_blob platform_w heap_w
       (xb_builder_import (xb_builder_import builder_w import_v) import_u) {} = Some (Inr (b, sl))"
  by (simp add: compile_eval_defs builder_eval_defs parser_eval_defs import_u_def import_v_def)

theorem append_guid_order_witness:
  "guid (xb_builder_import (xb_builder_import builder_w import_u) import_v) = ''u&v''
   \<and> guid (xb_builder_import (xb_builder_import builder_w import_v) import_u) = ''v&u''
   \<and> (\<exists>b1 sl1 b2 sl2.
        xb_builder_compile_blob platform_w heap_w
          (xb_builder_import (xb_builder_import builder_w import_u) import_v) {} = Some (Inr (b1, sl1))
      \<and> xb_builder_compile_blob platform_w heap_w
          (xb_builder_import (xb_builder_import builder_w import_v) import_u) {} = Some (Inr (b2, sl2))
      \<and> map_option hdr_guid (blob_header b1) = Some (replicate 16 1)
      \<and> map_option hdr_guid (blob_header b2) = Some (replicate 16 2))"
proof -
  have g: "guid builder_w = [] \<and> imp_guid import_u = ''u'' \<and> imp_guid import_v = ''v''"
    by (simp add: builder_w_def import_u_def import_v_def)
  note t = append_guid_order [of builder_w "''x''" import_u import_v, THEN conjunct2, rule_format, OF g]
  obtain b1 sl1 where c1: "xb_builder_compile_blob platform_w heap_w
       (xb_builder_import (xb_builder_import builder_w import_u) import_v) {} = Some (Inr (b1, sl1))"
    using compile_blob_uv by blast
  obtain b2 sl2 where c2: "xb_builder_compile_blob platform_w heap_w
       (xb_builder_import (xb_builder_import builder_w import_v) import_u) {} = Some (Inr (b2, sl2))"
    using compile_blob_vu by blast
  have s: "uuid_generate_sha1 platform_w ''u&v'' = replicate 16 1"
    "uuid_generate_sha1 platform_w ''v&u'' = replicate 16 2"
    by (simp_all add: platform_w_def)
  have "map_option hdr_guid (blob_header b1) = Some (replicate 16 1)
      \<and> map_option hdr_guid (blob_header b2) = Some (replicate 16 2)"
    using t [THEN conjunct2, THEN conjunct2, rule_format, OF conjI [OF c1 c2]] s by simp
  then show ?thesis
    using t [THEN conjunct1] t [THEN conjunct2, THEN conjunct1] c1 c2 by blast
qed

section \<open>The fix-up pass and ignored siblings\<close>

lemma import_langs_tree:
  "compile_build_tree platform_w heap_w (xb_builder_import builder_w import_langs)
      {XB_BUILDER_COMPILE_FLAG_NATIVE_LANGS} =
   Some (Inr \<lparr>root = GNode None [GNode (Some (XbBuilderNode 1000 ''r'' None [] {} []))
       [GNode (Some (XbBuilderNode 1001 ''x'' None [(''xml:lang'', ''en'')] {} [])) [],
        GNode (Some (XbBuilderNode 1002 ''x'' None [] {XB_BUILDER_NODE_FLAG_IGNORE_CDATA} [])) [],
        GNode (Some (XbBuilderNode 1003 ''x'' None [(''xml:lang'', ''en'')] {} [])) []]],
      current = Some [], flags = {XB_BUILDER_COMPILE_FLAG_NATIVE_LANGS},
      strtab_hash = [], strtab = [], info = None, locales = [''en'', ''C''],
      slots = (\<lambda>_. new_slots)(1000 := new_slots, 1001 := new_slots, 1002 := new_slots, 1003 := new_slots),
      next_obj = 1004\<rparr>)"
  by (simp add: compile_build_tree_def compile_helper_new_def parser_eval_defs import_langs_def
      xb_builder_import_def xb_builder_append_guid_def builder_w_def platform_w_def heap_w_def)

text \<open>
  C1 at a failing input.  The document
  \<open><r><x xml:lang="en"/><x xml:lang="fr"/><x xml:lang="en"/></r>\<close> compiled with
  NATIVE_LANGS under the locales en and C: the second \<open>x\<close> is ignored, the first and
  the third are live, and the third is written at offset 67.  The fix-up pass takes
  \<open>g_node_next_sibling\<close> of the first \<open>x\<close>, which is the ignored one, and stores the
  offset slot of that node, which no pass has written: the \<open>next\<close> of the first \<open>x\<close>
  is 0 although it has a live next sibling.
\<close>

theorem next_of_ignored_sibling:
  "map_option (map_sum id fst)
     (xb_builder_compile_blob platform_w heap_w (xb_builder_import builder_w import_langs)
        {XB_BUILDER_COMPILE_FLAG_NATIVE_LANGS}) =
   Some (Inr
     [HeaderItem \<lparr>hdr_magic = 0x624c4d58, hdr_version = 1, hdr_strtab = 90,
                   hdr_strtab_ntags = 2, hdr_guid = replicate 16 2\<rparr>,
      NodeItem \<lparr>is_node = True, has_text = False, nr_attrs = 0,
                 sn_element_name = 0, sn_next = 0, sn_parent = 0, sn_text = 0\<rparr>,
      NodeItem \<lparr>is_node = True, has_text = False, nr_attrs = 1,
                 sn_element_name = 2, sn_next = 0, sn_parent = 32, sn_text = 0\<rparr>,
      AttrItem \<lparr>attr_name = 4, attr_value = 13\<rparr>,
      sentinel_w,
      NodeItem \<lparr>is_node = True, has_text = False, nr_attrs = 1,
                 sn_element_name = 2, sn_next = 0, sn_parent = 32, sn_text = 0\<rparr>,
      AttrItem \<lparr>attr_name = 4, attr_value = 13\<rparr>,
      sentinel_w, sentinel_w,
      StrtabItem (''r'' @ [NUL] @ ''x'' @ [NUL] @ ''xml:lang'' @ [NUL] @ ''en'' @ [NUL])])"
  unfolding xb_builder_compile_blob_def import_langs_tree
  by (simp add: compile_eval_defs platform_w_def sentinel_w_def NUL_def Let_def new_slots_def
      xb_builder_import_def xb_builder_append_guid_def builder_w_def import_langs_def)

text \<open>
  Two imports that share one info node: the write pass stores the offset of the object
  twice, the fix-up pass patches the record at the last offset twice, and the record of
  the info node under \<open>a\<close> keeps \<open>parent = 0\<close> although its parent is live.
\<close>

lemma info_ab_tree:
  "compile_build_tree platform_w heap_w
      (xb_builder_import (xb_builder_import builder_w import_info_a) import_info_b) {} =
   Some (Inr \<lparr>root = GNode None
        [GNode (Some (XbBuilderNode 1000 ''a'' None [] {} [])) [GNode (Some info_w) []],
         GNode (Some (XbBuilderNode 1001 ''b'' None [] {} [])) [GNode (Some info_w) []]],
      current = Some [], flags = {},
      strtab_hash = [], strtab = [], info = Some info_w, locales = [''en'', ''C''],
      slots = (\<lambda>_. new_slots)(1000 := new_slots, 1001 := new_slots), next_obj = 1002\<rparr>)"
  by (simp add: compile_build_tree_def compile_helper_new_def parser_eval_defs import_info_a_def
      import_info_b_def builder_eval_defs info_w_def)

lemma shared_info_blob:
  "map_option (map_sum id fst)
     (xb_builder_compile_blob platform_w heap_w
        (xb_builder_import (xb_builder_import builder_w import_info_a) import_info_b) {}) =
   Some (Inr
     [HeaderItem \<lparr>hdr_magic = 0x624c4d58, hdr_version = 1, hdr_strtab = 88,
                   hdr_strtab_ntags = 3, hdr_guid = replicate 16 1\<rparr>,
      NodeItem \<lparr>is_node = True, has_text = False, nr_attrs = 0,
                 sn_element_name = 0, sn_next = 60, sn_parent = 0, sn_text = 0\<rparr>,
      NodeItem \<lparr>is_node = True, has_text = False, nr_attrs = 0,
                 sn_element_name = 4, sn_next = 0, sn_parent = 0, sn_text = 0\<rparr>,
      sentinel_w, sentinel_w,
      NodeItem \<lparr>is_node = True, has_text = False, nr_attrs = 0,
                 sn_element_name = 2, sn_next = 0, sn_parent = 0, sn_text = 0\<rparr>,
      NodeItem \<lparr>is_node = True, has_text = False, nr_attrs = 0,
                 sn_element_name = 4, sn_next = 0, sn_parent = 60, sn_text = 0\<rparr>,
      sentinel_w, sentinel_w,
      StrtabItem (''a'' @ [NUL] @ ''b'' @ [NUL] @ ''info'' @ [NUL])])"
  unfolding xb_builder_compile_blob_def info_ab_tree
  by (simp add: compile_eval_defs sentinel_w_def builder_eval_defs import_info_a_def
      import_info_b_def info_w_def)

section \<open>The size pass and the emitted node table\<close>

lemma fr_root_tree:
  "compile_build_tree platform_w heap_w (xb_builder_import builder_w import_fr_root)
      {XB_BUILDER_COMPILE_FLAG_NATIVE_LANGS} =
   Some (Inr \<lparr>root = GNode None
        [GNode (Some (XbBuilderNode 1000 ''r'' None [] {XB_BUILDER_NODE_FLAG_IGNORE_CDATA} []))
           [GNode (Some info_w) []]],
      current = Some [], flags = {XB_BUILDER_COMPILE_FLAG_NATIVE_LANGS},
      strtab_hash = [], strtab = [], info = Some info_w, locales = [''en'', ''C''],
      slots = (\<lambda>_. new_slots)(1000 := new_slots), next_obj = 1001\<rparr>)"
  by (simp add: compile_build_tree_def compile_helper_new_def parser_eval_defs import_fr_root_def
      builder_eval_defs info_w_def)

text \<open>
  C2 at a failing input.  The document \<open><r xml:lang="fr"/>\<close> of an import with an info
  node, compiled with NATIVE_LANGS under the locales en and C: \<open>r\<close> is ignored and the
  info node grafted beneath it is live, at depth 3.  The size pass counts one sentinel
  for it and the header says that the string table starts at byte 46; the write pass
  and the trailing loop emit two sentinels, and the string table starts at byte 47.
\<close>

theorem size_pass_ignored_parent:
  "map_option (map_sum id fst)
     (xb_builder_compile_blob platform_w heap_w (xb_builder_import builder_w import_fr_root)
        {XB_BUILDER_COMPILE_FLAG_NATIVE_LANGS}) =
   Some (Inr
     [HeaderItem \<lparr>hdr_magic = 0x624c4d58, hdr_version = 1, hdr_strtab = 46,
                   hdr_strtab_ntags = 1, hdr_guid = replicate 16 2\<rparr>,
      NodeItem \<lparr>is_node = True, has_text = False, nr_attrs = 0,
                 sn_element_name = 0, sn_next = 0, sn_parent = 0, sn_text = 0\<rparr>,
      sentinel_w, sentinel_w,
      StrtabItem (''info'' @ [NUL])])
   \<and> buf_len platform_w
     [HeaderItem \<lparr>hdr_magic = 0x624c4d58, hdr_version = 1, hdr_strtab = 46,
                   hdr_strtab_ntags = 1, hdr_guid = replicate 16 2\<rparr>,
      NodeItem \<lparr>is_node = True, has_text = False, nr_attrs = 0,
                 sn_element_name = 0, sn_next = 0, sn_parent = 0, sn_text = 0\<rparr>,
      sentinel_w, sentinel_w] = 47"
proof -
  have "map_option (map_sum id fst)
     (xb_builder_compile_blob platform_w heap_w (xb_builder_import builder_w import_fr_root)
        {XB_BUILDER_COMPILE_FLAG_NATIVE_LANGS}) =
   Some (Inr
     [HeaderItem \<lparr>hdr_magic = 0x624c4d58, hdr_version = 1, hdr_strtab = 46,
                   hdr_strtab_ntags = 1, hdr_guid = replicate 16 2\<rparr>,
      NodeItem \<lparr>is_node = True, has_text = False, nr_attrs = 0,
                 sn_element_name = 0, sn_next = 0, sn_parent = 0, sn_text = 0\<rparr>,
      sentinel_w, sentinel_w,
      StrtabItem (''info'' @ [NUL])])"
    unfolding xb_builder_compile_blob_def fr_root_tree
    by (simp add: compile_eval_defs sentinel_w_def builder_eval_defs import_fr_root_def info_w_def)
  moreover have "buf_len platform_w
     [HeaderItem \<lparr>hdr_magic = 0x624c4d58, hdr_version = 1, hdr_strtab = 46,
                   hdr_strtab_ntags = 1, hdr_guid = replicate 16 2\<rparr>,
      NodeItem \<lparr>is_node = True, has_text = False, nr_attrs = 0,
                 sn_element_name = 0, sn_next = 0, sn_parent = 0, sn_text = 0\<rparr>,
      sentinel_w, sentinel_w] = 47"
    by (simp add: buf_len_def platform_w_def sentinel_w_def)
  ultimately show ?thesis by (rule conjI)
qed

section \<open>Grafting the info tree\<close>








section \<open>Compiling with an empty accumulator\<close>

text \<open>The length of header and node table depends on the tree and the layout only.\<close>

lemma node_items_sizes:
  "map (item_size P) (node_items s bn) = map (item_size P) (node_items s' bn)"
  by (simp add: node_items_def)

lemma write_cb_sizes:
  assumes "level h1 = level h2" "map (item_size P) (buf h1) = map (item_size P) (buf h2)"
  shows "level (fst (xb_builder_nodetab_write_cb P (h1, sl1) v))
           = level (fst (xb_builder_nodetab_write_cb P (h2, sl2) v))
       \<and> map (item_size P) (buf (fst (xb_builder_nodetab_write_cb P (h1, sl1) v)))
           = map (item_size P) (buf (fst (xb_builder_nodetab_write_cb P (h2, sl2) v)))"
proof (cases "\<exists>bn. live v bn")
  case True
  then obtain bn where lv: "live v bn" by blast
  show ?thesis
    unfolding write_cb_live [OF lv]
    using assms node_items_sizes [of P "sl1 (bn_obj bn)" bn "sl2 (bn_obj bn)"] by simp
next
  case False
  then show ?thesis using assms by (simp add: write_cb_skip)
qed

lemma write_pass_sizes:
  assumes "level (fst st1) = level (fst st2)"
    "map (item_size P) (buf (fst st1)) = map (item_size P) (buf (fst st2))"
  shows "level (fst (foldl (xb_builder_nodetab_write_cb P) st1 vs))
           = level (fst (foldl (xb_builder_nodetab_write_cb P) st2 vs))
       \<and> map (item_size P) (buf (fst (foldl (xb_builder_nodetab_write_cb P) st1 vs)))
           = map (item_size P) (buf (fst (foldl (xb_builder_nodetab_write_cb P) st2 vs)))"
  using assms
proof (induction vs arbitrary: st1 st2)
  case Nil
  then show ?case by simp
next
  case (Cons v vs)
  obtain h1 sl1 where s1: "st1 = (h1, sl1)" by (cases st1)
  obtain h2 sl2 where s2: "st2 = (h2, sl2)" by (cases st2)
  have "level (fst (xb_builder_nodetab_write_cb P st1 v))
           = level (fst (xb_builder_nodetab_write_cb P st2 v))
       \<and> map (item_size P) (buf (fst (xb_builder_nodetab_write_cb P st1 v)))
           = map (item_size P) (buf (fst (xb_builder_nodetab_write_cb P st2 v)))"
    unfolding s1 s2 using Cons.prems by (intro write_cb_sizes) (simp_all add: s1 s2)
  then show ?case
    using Cons.IH [of "xb_builder_nodetab_write_cb P st1 v" "xb_builder_nodetab_write_cb P st2 v"]
    by simp
qed

lemma buf_len_sizes:
  "map (item_size P) a = map (item_size P) b \<Longrightarrow> buf_len P a = buf_len P b"
  by (simp add: buf_len_def)

lemma compile_nodetab_bytes:
  "buf_len P (fst (compile_nodetab P hdr sl rt)) = nodetab_bytes P rt"
proof -
  let ?s1 = "(\<lparr>buf = [HeaderItem hdr], level = 0\<rparr>, sl)"
  let ?s2 = "(\<lparr>buf = [HeaderItem (header_w [])], level = 0\<rparr>, \<lambda>_. new_slots)"
  let ?vs = "g_node_traverse_pre_order rt"
  have "level (fst (foldl (xb_builder_nodetab_write_cb P) ?s1 ?vs))
           = level (fst (foldl (xb_builder_nodetab_write_cb P) ?s2 ?vs))
       \<and> map (item_size P) (buf (fst (foldl (xb_builder_nodetab_write_cb P) ?s1 ?vs)))
           = map (item_size P) (buf (fst (foldl (xb_builder_nodetab_write_cb P) ?s2 ?vs)))"
    by (rule write_pass_sizes) simp_all
  then have lv: "level (fst (foldl (xb_builder_nodetab_write_cb P) ?s1 ?vs))
           = level (fst (foldl (xb_builder_nodetab_write_cb P) ?s2 ?vs))"
    and bl: "buf_len P (buf (fst (foldl (xb_builder_nodetab_write_cb P) ?s1 ?vs)))
           = buf_len P (buf (fst (foldl (xb_builder_nodetab_write_cb P) ?s2 ?vs)))"
    using buf_len_sizes by blast+
  show ?thesis
    unfolding nodetab_bytes_def compile_nodetab_eq fst_conv buf_len_append lv bl ..
qed

lemma compile_nodetab_offsets:
  assumes "layout_ok P" "buf_len P (fst (compile_nodetab P hdr sl rt)) \<le> 2 ^ 32"
  shows "offsets_ok P (live_objs (g_node_traverse_pre_order rt))
           (fst (compile_nodetab P hdr sl rt)) (snd (compile_nodetab P hdr sl rt))"
proof -
  let ?st = "foldl (xb_builder_nodetab_write_cb P) (\<lparr>buf = [HeaderItem hdr], level = 0\<rparr>, sl)
               (g_node_traverse_pre_order rt)"
  have small: "buf_len P (buf (fst ?st)) \<le> 2 ^ 32"
    using assms(2) by (simp add: compile_nodetab_eq)
  have "all_pos P (buf (fst ?st))
       \<and> offsets_ok P ({} \<union> live_objs (g_node_traverse_pre_order rt)) (buf (fst ?st)) (snd ?st)"
    using assms(1) small
    by (intro write_pass_inv) (simp_all add: all_pos_def layout_ok_def offsets_ok_def)
  then have "offsets_ok P (live_objs (g_node_traverse_pre_order rt)) (buf (fst ?st)) (snd ?st)"
    by simp
  then show ?thesis
    unfolding compile_nodetab_eq offsets_ok_def by (auto intro: node_at_append)
qed

lemma pre_order_next:
  "(\<forall>k\<in>set (kids n). has_data k) \<longrightarrow> (\<forall>s\<in>set sibs. has_data s) \<longrightarrow>
     (\<forall>v\<in>set (pre_order d par n sibs). v_next v \<noteq> Some None)"
  "(\<forall>k\<in>set ks. has_data k) \<longrightarrow>
     (\<forall>v\<in>set (pre_order_kids d par ks). v_next v \<noteq> Some None)"
proof (induction d par n sibs and d par ks rule: pre_order_pre_order_kids.induct)
  case (1 d par x ks sibs)
  show ?case
  proof (intro impI ballI)
    fix v
    assume k: "\<forall>k\<in>set (kids (GNode x ks)). has_data k" and s: "\<forall>s\<in>set sibs. has_data s"
      and v: "v \<in> set (pre_order d par (GNode x ks) sibs)"
    have hd: "(case sibs of [] \<Rightarrow> None | s # _ \<Rightarrow> Some (data s)) \<noteq> Some None"
    proof (cases sibs)
      case Nil
      then show ?thesis by simp
    next
      case (Cons t ts)
      then have "has_data t" using s by simp
      then have "data t \<noteq> None" by (cases t) simp
      then show ?thesis using Cons by simp
    qed
    from v consider "v = \<lparr>v_data = x, v_depth = d, v_parent = par,
        v_next = (case sibs of [] \<Rightarrow> None | s # _ \<Rightarrow> Some (data s))\<rparr>"
      | "v \<in> set (pre_order_kids (Suc d) (Some x) ks)"
      by auto
    then show "v_next v \<noteq> Some None"
    proof cases
      case 1
      then show ?thesis using hd by simp
    next
      case 2
      then show ?thesis using "1.IH" k by simp
    qed
  qed
next
  case (2 d par)
  show ?case by simp
next
  case (3 d par k ks)
  show ?case
  proof (intro impI ballI)
    fix v
    assume a: "\<forall>k\<in>set (k # ks). has_data k" and v: "v \<in> set (pre_order_kids d par (k # ks))"
    have kk: "\<forall>c\<in>set (kids k). has_data c"
      using a by (cases k) simp
    from v consider "v \<in> set (pre_order d par k ks)" | "v \<in> set (pre_order_kids d par ks)"
      by auto
    then show "v_next v \<noteq> Some None"
    proof cases
      case 1
      then show ?thesis using "3.IH"(1) kk a by simp
    next
      case 2
      then show ?thesis using "3.IH"(2) a by simp
    qed
  qed
qed

lemma traverse_next:
  "\<forall>k\<in>set (kids rt). has_data k \<Longrightarrow>
   \<forall>v\<in>set (g_node_traverse_pre_order rt). v_next v \<noteq> Some None"
  unfolding g_node_traverse_pre_order_def using pre_order_next(1) [of rt "[]" 1 None] by simp

lemma has_data_node_tree: "has_data (node_tree bn)"
  by (induction bn) simp

lemma compile_node_tree_root:
  "xb_builder_compile_node_tree rt [] bn = GNode (data rt) (kids rt @ [node_tree bn])"
  by (simp add: xb_builder_compile_node_tree_def g_node_append_def)

lemma graft_fold:
  "foldl (\<lambda>h bn. h\<lparr>root := xb_builder_compile_node_tree (root h) [] bn\<rparr>) helper bns =
     helper\<lparr>root := GNode (data (root helper)) (kids (root helper) @ map node_tree bns)\<rparr>"
proof (induction bns arbitrary: helper)
  case Nil
  show ?case by simp
next
  case (Cons bn bns)
  show ?case
    unfolding foldl_Cons Cons.IH by (simp add: compile_node_tree_root)
qed

lemma build_tree_no_imports:
  assumes "self_imports self = []"
  shows "compile_build_tree P heap self fl =
     Some (Inr ((compile_helper_new P heap fl)\<lparr>root := GNode None (map node_tree (nodes self))\<rparr>))"
  using assms by (simp add: compile_build_tree_def graft_fold) (simp add: compile_helper_new_def)

lemma compile_tree_ok:
  assumes lay: "layout_ok P" and dat: "\<forall>k\<in>set (kids (root helper)). has_data k"
    and small: "nodetab_bytes P (root helper) \<le> 2 ^ 32"
  shows "\<exists>b sl. compile_tree P acc helper = Some (b, sl)"
proof -
  obtain helper' ntags where st: "compile_strtab helper = (helper', ntags)"
    by (cases "compile_strtab helper")
  have rt: "root helper' = root helper"
    using compile_strtab_root [of helper] st by simp
  let ?hdr = "\<lparr>hdr_magic = XB_SILO_MAGIC_BYTES P, hdr_version = XB_SILO_VERSION P,
                 hdr_strtab = compile_nodetab_size P (root helper), hdr_strtab_ntags = ntags,
                 hdr_guid = (if length acc > 0 then uuid_generate_sha1 P acc
                             else replicate 16 0)\<rparr>"
  obtain b0 sl0 where nt: "compile_nodetab P ?hdr (slots helper') (root helper') = (b0, sl0)"
    by (cases "compile_nodetab P ?hdr (slots helper') (root helper')")
  let ?vs = "g_node_traverse_pre_order (root helper')"
  have "buf_len P b0 \<le> 2 ^ 32"
    using compile_nodetab_bytes [of P ?hdr "slots helper'" "root helper'"] nt small rt by simp
  then have ok: "offsets_ok P (live_objs ?vs) b0 sl0"
    using compile_nodetab_offsets [OF lay, of ?hdr "slots helper'" "root helper'"] nt by simp
  have nx: "\<forall>v\<in>set ?vs. v_next v \<noteq> Some None"
    using traverse_next dat rt by simp
  have "\<forall>v\<in>set ?vs. fix_ready P sl0 b0 v"
  proof
    fix v
    assume v: "v \<in> set ?vs"
    have "node_at P b0 (unat (offset (sl0 (bn_obj bn))))" if "live v bn" for bn
    proof -
      have "bn_obj bn \<in> live_objs ?vs"
        using v that unfolding live_objs_def by blast
      then show ?thesis using ok by (simp add: offsets_ok_def)
    qed
    then show "fix_ready P sl0 b0 v"
      using nx v by (simp add: fix_ready_def)
  qed
  then obtain b1 where fx: "fix_all P sl0 b0 ?vs = Some b1"
    using fix_all_ok by blast
  have "compile_tree P acc helper = Some (b1 @ [StrtabItem (strtab helper')], sl0)"
    unfolding compile_tree_def Let_def st prod.case nt using fx by simp
  then show ?thesis by blast
qed

text \<open>The UUID function is used for the header's guid field only.\<close>

lemma item_size_sha1 [simp]:
  "item_size (P\<lparr>uuid_generate_sha1 := f\<rparr>) = item_size P"
proof
  fix it
  show "item_size (P\<lparr>uuid_generate_sha1 := f\<rparr>) it = item_size P it"
    by (cases it) simp_all
qed

lemma buf_len_sha1 [simp]: "buf_len (P\<lparr>uuid_generate_sha1 := f\<rparr>) b = buf_len P b"
  by (simp add: buf_len_def)

lemma node_size_sha1 [simp]:
  "xb_builder_node_size (P\<lparr>uuid_generate_sha1 := f\<rparr>) bn = xb_builder_node_size P bn"
  by (simp add: xb_builder_node_size_def)

lemma size_cb_sha1 [simp]:
  "xb_builder_nodetab_size_cb (P\<lparr>uuid_generate_sha1 := f\<rparr>) = xb_builder_nodetab_size_cb P"
  by (intro ext) (simp add: xb_builder_nodetab_size_cb_def Let_def split: option.splits)

lemma write_node_sha1 [simp]:
  "xb_builder_nodetab_write_node (P\<lparr>uuid_generate_sha1 := f\<rparr>) st bn =
   xb_builder_nodetab_write_node P st bn"
  by (simp add: xb_builder_nodetab_write_node_def)

lemma write_cb_sha1 [simp]:
  "xb_builder_nodetab_write_cb (P\<lparr>uuid_generate_sha1 := f\<rparr>) = xb_builder_nodetab_write_cb P"
  by (intro ext) (simp add: xb_builder_nodetab_write_cb_def Let_def split: option.splits)

lemma item_at_sha1 [simp]:
  "item_at (P\<lparr>uuid_generate_sha1 := f\<rparr>) b off = item_at P b off"
  by (induction b arbitrary: off) simp_all

lemma update_node_sha1 [simp]:
  "update_node (P\<lparr>uuid_generate_sha1 := f\<rparr>) b off g = update_node P b off g"
  by (simp add: update_node_def)

lemma fix_cb_sha1 [simp]:
  "xb_builder_nodetab_fix_cb (P\<lparr>uuid_generate_sha1 := f\<rparr>) sl b v = xb_builder_nodetab_fix_cb P sl b v"
  by (simp add: xb_builder_nodetab_fix_cb_def Let_def split: option.splits)

lemma fix_all_sha1 [simp]:
  "fix_all (P\<lparr>uuid_generate_sha1 := f\<rparr>) sl b vs = fix_all P sl b vs"
  by (induction vs arbitrary: b) (simp_all split: option.splits)

lemma compile_tree_sha1:
  "compile_tree (P\<lparr>uuid_generate_sha1 := f\<rparr>) [] helper = compile_tree P [] helper"
  by (simp add: compile_tree_def compile_nodetab_size_def compile_nodetab_def)

lemma compile_build_tree_sha1:
  "compile_build_tree (P\<lparr>uuid_generate_sha1 := f\<rparr>) heap self fl = compile_build_tree P heap self fl"
  by (simp add: compile_build_tree_def compile_helper_new_def)

lemma compile_blob_sha1:
  assumes "guid self = []"
  shows "xb_builder_compile_blob (P\<lparr>uuid_generate_sha1 := f\<rparr>) heap self fl =
         xb_builder_compile_blob P heap self fl"
  unfolding xb_builder_compile_blob_def compile_build_tree_sha1 assms compile_tree_sha1 ..

text \<open>
  C10.  A builder with an empty accumulator and no imports, whatever nodes it was given,
  on a layout whose records have positive lengths (a node record longer than its text
  field) and with header and node table together within the 2^32 bytes that an offset
  can address (\<open>nodetab_bytes\<close> is the length of what the write pass and its trailing
  sentinels emit after the header).  Then the compile builds a blob: no pass fails, the
  guid field of its header is sixteen zero bytes, and the blob is the same whatever the
  UUID function is, which is never called.  The compile ends with the silo loader on
  that blob: it returns the loaded silo when the loader accepts the blob and the
  loader's error when it does not.
\<close>

theorem compile_empty_accumulator:
  assumes "guid self = []" and "self_imports self = []"
    and "0 < sizeof_XbSiloHeader P" and "4 < sizeof_XbSiloNode P"
    and "0 < sizeof_XbSiloAttr P" and "0 < sizeof_sentinel P"
    and "nodetab_bytes P (GNode None (map node_tree (nodes self))) \<le> 2 ^ 32"
  shows "\<exists>blob sl.
      xb_builder_compile_blob P heap self fl = Some (Inr (blob, sl))
    \<and> map_option hdr_guid (blob_header blob) = Some (replicate 16 0)
    \<and> (\<forall>f. xb_builder_compile_blob (P\<lparr>uuid_generate_sha1 := f\<rparr>) heap self fl
            = Some (Inr (blob, sl)))
    \<and> xb_builder_compile P heap self fl =
        (case xb_silo_load_from_bytes P (silo self) blob of
           (None, s) \<Rightarrow> Some (Inr s, self\<lparr>silo := s\<rparr>, heap\<lparr>node_slots := sl\<rparr>)
         | (Some e, s) \<Rightarrow> Some (Inl e, self\<lparr>silo := s\<rparr>, heap\<lparr>node_slots := sl\<rparr>))"
proof -
  let ?helper = "(compile_helper_new P heap fl)\<lparr>root := GNode None (map node_tree (nodes self))\<rparr>"
  have tree: "compile_build_tree P heap self fl = Some (Inr ?helper)"
    using assms(2) by (rule build_tree_no_imports)
  have lay: "layout_ok P"
    using assms(3-6) by (simp add: layout_ok_def)
  have dat: "\<forall>k\<in>set (kids (root ?helper)). has_data k"
    by (simp add: has_data_node_tree)
  have small: "nodetab_bytes P (root ?helper) \<le> 2 ^ 32"
    using assms(7) by simp
  obtain blob sl where ct: "compile_tree P (guid self) ?helper = Some (blob, sl)"
    using compile_tree_ok [OF lay dat small] by blast
  have cb: "xb_builder_compile_blob P heap self fl = Some (Inr (blob, sl))"
    by (simp add: xb_builder_compile_blob_def tree ct)
  have zero: "map_option hdr_guid (blob_header blob) = Some (replicate 16 0)"
    using compile_blob_header [OF cb] assms(1) by simp
  have indep: "xb_builder_compile_blob (P\<lparr>uuid_generate_sha1 := f\<rparr>) heap self fl
            = Some (Inr (blob, sl))" for f
    using compile_blob_sha1 [OF assms(1)] cb by simp
  obtain err s where ld: "xb_silo_load_from_bytes P (silo self) blob = (err, s)"
    by (cases "xb_silo_load_from_bytes P (silo self) blob")
  have run: "xb_builder_compile P heap self fl =
        (case xb_silo_load_from_bytes P (silo self) blob of
           (None, s) \<Rightarrow> Some (Inr s, self\<lparr>silo := s\<rparr>, heap\<lparr>node_slots := sl\<rparr>)
         | (Some e, s) \<Rightarrow> Some (Inl e, self\<lparr>silo := s\<rparr>, heap\<lparr>node_slots := sl\<rparr>))"
    unfolding xb_builder_compile_def cb using ld by (cases err) simp_all
  show ?thesis
    using cb zero indep run by blast
qed

lemma nodetab_bytes_info_w:
  "nodetab_bytes platform_w (GNode None (map node_tree [info_w])) = 46"
  by (simp add: nodetab_bytes_def compile_nodetab_def g_node_traverse_pre_order_def
      xb_builder_nodetab_write_cb_def xb_builder_nodetab_write_node_def
      xb_builder_nodetab_write_sentinel_def xb_builder_node_has_flag_def buf_len_def
      info_w_def platform_w_def header_w_def Let_def)

theorem compile_empty_accumulator_witness:
  "\<exists>blob sl.
      xb_builder_compile platform_w heap_w (builder_w\<lparr>nodes := [info_w]\<rparr>) {} =
        Some (Inr \<lparr>silo_guid = Some ''zero'', silo_bytes = Some blob\<rparr>,
              builder_w\<lparr>nodes := [info_w],
                        silo := \<lparr>silo_guid = Some ''zero'', silo_bytes = Some blob\<rparr>\<rparr>,
              heap_w\<lparr>node_slots := sl\<rparr>)
    \<and> map_option hdr_guid (blob_header blob) = Some (replicate 16 0)"
proof -
  let ?self = "builder_w\<lparr>nodes := [info_w]\<rparr>"
  have 1: "guid ?self = []" and 2: "self_imports ?self = []"
    by (simp_all add: builder_w_def)
  have 3: "0 < sizeof_XbSiloHeader platform_w" and 4: "4 < sizeof_XbSiloNode platform_w"
    and 5: "0 < sizeof_XbSiloAttr platform_w" and 6: "0 < sizeof_sentinel platform_w"
    by (simp_all add: platform_w_def)
  have 7: "nodetab_bytes platform_w (GNode None (map node_tree (nodes ?self))) \<le> 2 ^ 32"
    using nodetab_bytes_info_w by simp
  from compile_empty_accumulator [OF 1 2 3 4 5 6 7, of heap_w "{}"]
  obtain blob sl where
    z: "map_option hdr_guid (blob_header blob) = Some (replicate 16 0)"
    and r: "xb_builder_compile platform_w heap_w ?self {} =
        (case xb_silo_load_from_bytes platform_w (silo ?self) blob of
           (None, s) \<Rightarrow> Some (Inr s, ?self\<lparr>silo := s\<rparr>, heap_w\<lparr>node_slots := sl\<rparr>)
         | (Some e, s) \<Rightarrow> Some (Inl e, ?self\<lparr>silo := s\<rparr>, heap_w\<lparr>node_slots := sl\<rparr>))"
    by blast
  from z obtain h where h: "blob_header blob = Some h" "hdr_guid h = replicate 16 0"
    by auto
  have "xb_silo_load_from_bytes platform_w (silo ?self) blob =
      (None, \<lparr>silo_guid = Some ''zero'', silo_bytes = Some blob\<rparr>)"
    using h by (simp add: platform_w_def)
  then have "xb_builder_compile platform_w heap_w ?self {} =
        Some (Inr \<lparr>silo_guid = Some ''zero'', silo_bytes = Some blob\<rparr>,
              ?self\<lparr>silo := \<lparr>silo_guid = Some ''zero'', silo_bytes = Some blob\<rparr>\<rparr>,
              heap_w\<lparr>node_slots := sl\<rparr>)"
    using r by simp
  then show ?thesis
    using z by (intro exI [where x = blob] exI [where x = sl]) simp
qed

end
